theory Spec2Isabelle
  imports Complex_Main "HOL-Library.Sublist"
begin

section \<open>The DSS refund auditor: decision matching and compliance scoring\<close>

text \<open>
  The repository holds two versions of the engine: \<^verbatim>\<open>assets/app.js\<close> (the application
  script, \<^verbatim>\<open>src/unnamed/part_001\<close>) and the replacement script printed in the
  enhanced-implementation guide (\<^verbatim>\<open>src/unnamed/part_000\<close>). Constants without a
  suffix embed the application script; constants ending in \<open>_enh\<close> embed the guide's
  version of the function of the same name.

  A JavaScript string is a HOL \<open>string\<close> holding its UTF-8 bytes. Every literal that
  the engine tests is ASCII, except the sign U+2264 in the tier labels and the column
  headers, which is the three bytes E2 89 A4.

  The \<^verbatim>\<open>i\<close> flag of a regular expression folds the letters A to Z and no other
  character onto an ASCII letter, so \<open>toLowerCase\<close> below, which folds A to Z, is the
  folding of every test against an ASCII literal. The method \<^verbatim>\<open>toLowerCase\<close> of a string
  folds every cased letter of Unicode; where the scenario matcher calls it on the ticket
  text and on the grid, the model takes the folding function as the parameter \<open>lc\<close>,
  and the properties of the matcher hold for every \<open>lc\<close>. The white space \<^verbatim>\<open>\s\<close> of the
  currency patterns is the full class of JavaScript, in its UTF-8 bytes.
\<close>

subsection \<open>Strings\<close>

definition toLowerChar :: "char \<Rightarrow> char" where
  "toLowerChar c =
     (let n = (of_char c :: nat) in if 65 \<le> n \<and> n \<le> 90 then char_of (n + 32) else c)"

definition toLowerCase :: "string \<Rightarrow> string" where
  "toLowerCase s = map toLowerChar s"

text \<open>
  The ASCII white space that \<^verbatim>\<open>trim\<close> strips: tab, line feed, vertical tab, form feed,
  carriage return, space.
\<close>

definition isSpace :: "char \<Rightarrow> bool" where
  "isSpace c = (let n = (of_char c :: nat) in (9 \<le> n \<and> n \<le> 13) \<or> n = 32)"

text \<open>The dot of a regular expression matches everything but a line terminator.\<close>

definition isLineTerminator :: "char \<Rightarrow> bool" where
  "isLineTerminator c = (let n = (of_char c :: nat) in n = 10 \<or> n = 13)"

definition isDigit :: "char \<Rightarrow> bool" where
  "isDigit c = (let n = (of_char c :: nat) in 48 \<le> n \<and> n \<le> 57)"

definition trim :: "string \<Rightarrow> string" where
  "trim s = rev (dropWhile isSpace (rev (dropWhile isSpace s)))"

text \<open>
  The class \<^verbatim>\<open>\s\<close>, each character as its UTF-8 bytes: U+0009 to U+000D, U+0020,
  U+00A0, U+1680, U+2000 to U+200A, U+2028, U+2029, U+202F, U+205F, U+3000 and U+FEFF.
\<close>

definition whiteSpace :: "string list" where
  "whiteSpace =
     [[CHR 0x09], [CHR 0x0A], [CHR 0x0B], [CHR 0x0C], [CHR 0x0D], [CHR 0x20],
      [CHR 0xC2, CHR 0xA0],
      [CHR 0xE1, CHR 0x9A, CHR 0x80],
      [CHR 0xE2, CHR 0x80, CHR 0x80], [CHR 0xE2, CHR 0x80, CHR 0x81],
      [CHR 0xE2, CHR 0x80, CHR 0x82], [CHR 0xE2, CHR 0x80, CHR 0x83],
      [CHR 0xE2, CHR 0x80, CHR 0x84], [CHR 0xE2, CHR 0x80, CHR 0x85],
      [CHR 0xE2, CHR 0x80, CHR 0x86], [CHR 0xE2, CHR 0x80, CHR 0x87],
      [CHR 0xE2, CHR 0x80, CHR 0x88], [CHR 0xE2, CHR 0x80, CHR 0x89],
      [CHR 0xE2, CHR 0x80, CHR 0x8A],
      [CHR 0xE2, CHR 0x80, CHR 0xA8], [CHR 0xE2, CHR 0x80, CHR 0xA9],
      [CHR 0xE2, CHR 0x80, CHR 0xAF],
      [CHR 0xE2, CHR 0x81, CHR 0x9F],
      [CHR 0xE3, CHR 0x80, CHR 0x80],
      [CHR 0xEF, CHR 0xBB, CHR 0xBF]]"

text \<open>The number of bytes of the white-space character at the head of \<open>s\<close>, 0 when there is none.\<close>

definition whiteSpaceAt :: "string \<Rightarrow> nat" where
  "whiteSpaceAt s = (case find (\<lambda>w. prefix w s) whiteSpace of Some w \<Rightarrow> length w | None \<Rightarrow> 0)"

text \<open>The greedy \<^verbatim>\<open>\s*\<close> anchored at the start of \<open>s\<close>: what is left of \<open>s\<close> after it.\<close>

function skipSpace :: "string \<Rightarrow> string" where
  "skipSpace s = (if whiteSpaceAt s = 0 then s else skipSpace (drop (whiteSpaceAt s) s))"
  by pat_completeness auto
termination
proof (relation "measure length")
  show "wf (measure length)" by simp
next
  fix s :: string
  assume "whiteSpaceAt s \<noteq> 0"
  then obtain w where "find (\<lambda>w. prefix w s) whiteSpace = Some w" "w \<noteq> []"
    by (auto simp: whiteSpaceAt_def split: option.splits)
  then have "prefix w s" "w \<noteq> []" by (auto simp: find_Some_iff)
  then have "s \<noteq> []" by auto
  with \<open>whiteSpaceAt s \<noteq> 0\<close> show "(drop (whiteSpaceAt s) s, s) \<in> measure length" by simp
qed

declare skipSpace.simps [simp del]

text \<open>\<^verbatim>\<open>t.includes(p)\<close>: \<open>p\<close> occurs in \<open>t\<close> as a contiguous substring.\<close>

fun str_includes :: "string \<Rightarrow> string \<Rightarrow> bool" where
  "str_includes [] p = (p = [])"
| "str_includes (c # cs) p = (prefix p (c # cs) \<or> str_includes cs p)"

text \<open>\<^verbatim>\<open>/p/i.test(t)\<close> for an ASCII lower-case literal \<open>p\<close>.\<close>

definition test_i :: "string \<Rightarrow> string \<Rightarrow> bool" where
  "test_i p t = str_includes (toLowerCase t) p"

text \<open>
  \<^verbatim>\<open>/a.*b/.test(t)\<close> for literals \<open>a\<close> and \<open>b\<close>: \<open>a\<close> occurs somewhere, and \<open>b\<close>
  occurs after it with no line terminator between the two. \<open>dotStarThen b s\<close> is the
  match of \<^verbatim>\<open>.*b\<close> anchored at the start of \<open>s\<close>.
\<close>

fun dotStarThen :: "string \<Rightarrow> string \<Rightarrow> bool" where
  "dotStarThen b [] = (b = [])"
| "dotStarThen b (c # cs) = (prefix b (c # cs) \<or> (\<not> isLineTerminator c \<and> dotStarThen b cs))"

fun testSeq :: "string \<Rightarrow> string \<Rightarrow> string \<Rightarrow> bool" where
  "testSeq a b [] = (a = [] \<and> b = [])"
| "testSeq a b (c # cs) =
     ((prefix a (c # cs) \<and> dotStarThen b (drop (length a) (c # cs))) \<or> testSeq a b cs)"

definition testSeq_i :: "string \<Rightarrow> string \<Rightarrow> string \<Rightarrow> bool" where
  "testSeq_i a b t = testSeq a b (toLowerCase t)"

subsection \<open>Value tiers and column letters\<close>

definition leq_sign :: string where
  "leq_sign = [CHR 0xE2, CHR 0x89, CHR 0xA4]"

definition tier_low :: string where
  "tier_low = leq_sign @ '' USD 125''"

definition tier_high :: string where
  "tier_high = ''> USD 125''"

definition tier_unknown :: string where
  "tier_unknown = ''Unknown''"

text \<open>The four tests of \<^verbatim>\<open>chooseColumnLetter\<close> on the trimmed type, shared by both versions.\<close>

definition isPartneredType :: "string \<Rightarrow> bool" where
  "isPartneredType type =
     (toLowerCase type = ''partnered'' \<or>
      (test_i ''partnered'' type \<and> \<not> test_i ''social'' type))"

definition test_nonPartnered :: "string \<Rightarrow> bool" where
  "test_nonPartnered type = (test_i ''non-partnered'' type \<or> test_i ''nonpartnered'' type)"

definition isNonPartneredType :: "string \<Rightarrow> bool" where
  "isNonPartneredType type =
     ((toLowerCase type = ''non-partnered'' \<or> toLowerCase type = ''nonpartnered'') \<or>
      (test_nonPartnered type \<and> \<not> test_i ''social'' type))"

definition isSocialPartneredType :: "string \<Rightarrow> bool" where
  "isSocialPartneredType type =
     (testSeq_i ''social'' ''partnered'' type \<or>
      (test_i ''social'' type \<and> test_i ''partnered'' type \<and> \<not> test_i ''non'' type))"

definition isSocialNonPartneredType :: "string \<Rightarrow> bool" where
  "isSocialNonPartneredType type =
     ((testSeq_i ''social'' ''non-partnered'' type \<or> testSeq_i ''social'' ''nonpartnered'' type) \<or>
      (test_i ''social'' type \<and> test_nonPartnered type))"

text \<open>\<^verbatim>\<open>chooseColumnLetter\<close> of the application script: an unrecognised tier takes the low column.\<close>

definition chooseColumnLetter :: "string \<Rightarrow> string \<Rightarrow> string" where
  "chooseColumnLetter experienceType valueTier =
     (let type = trim experienceType; vt = trim valueTier in
      if isPartneredType type then
        (if vt = tier_low then ''C'' else if vt = tier_high then ''D'' else ''C'')
      else if isNonPartneredType type then
        (if vt = tier_low then ''E'' else if vt = tier_high then ''F'' else ''E'')
      else if isSocialPartneredType type then
        (if vt = tier_low then ''G'' else if vt = tier_high then ''H'' else ''G'')
      else if isSocialNonPartneredType type then
        (if vt = tier_low then ''I'' else if vt = tier_high then ''J'' else ''I'')
      else (if vt = tier_high then ''D'' else ''C''))"

text \<open>\<^verbatim>\<open>chooseColumnLetter\<close> of the guide: inside a rule, every tier but the low one takes the high column.\<close>

definition chooseColumnLetter_enh :: "string \<Rightarrow> string \<Rightarrow> string" where
  "chooseColumnLetter_enh experienceType valueTier =
     (let type = trim experienceType; vt = trim valueTier in
      if isPartneredType type then (if vt = tier_low then ''C'' else ''D'')
      else if isNonPartneredType type then (if vt = tier_low then ''E'' else ''F'')
      else if isSocialPartneredType type then (if vt = tier_low then ''G'' else ''H'')
      else if isSocialNonPartneredType type then (if vt = tier_low then ''I'' else ''J'')
      else (if vt = tier_high then ''D'' else ''C''))"

text \<open>
  \<^verbatim>\<open>cellHeaderMap\<close>, the same object literal in both versions. It is read at the letter
  that \<^verbatim>\<open>chooseColumnLetter\<close> returned.
\<close>

definition cellHeaderMap :: "string \<rightharpoonup> string" where
  "cellHeaderMap =
     [''C'' \<mapsto> ''Partnered '' @ tier_low, ''D'' \<mapsto> ''Partnered '' @ tier_high,
      ''E'' \<mapsto> ''Non-Partnered '' @ tier_low, ''F'' \<mapsto> ''Non-Partnered '' @ tier_high,
      ''G'' \<mapsto> ''Social Media Partnered '' @ tier_low,
      ''H'' \<mapsto> ''Social Media Partnered '' @ tier_high,
      ''I'' \<mapsto> ''Social Media Non-Partnered '' @ tier_low,
      ''J'' \<mapsto> ''Social Media Non-Partnered '' @ tier_high]"

subsection \<open>Severity\<close>

text \<open>
  \<^verbatim>\<open>severityRank\<close> lower-cases the text and then tests it against ASCII literals. The
  only characters outside A to Z that the method folds onto ASCII letters are U+212A,
  onto k, and U+0130, onto i and a combining dot; no literal here holds a k or ends in i,
  so the folding of A to Z gives the tests the same answers.
\<close>

definition severityRank :: "string \<Rightarrow> int" where
  "severityRank refundText =
     (let t = toLowerCase refundText in
      if test_i ''full refund'' t \<or> test_i ''refund to original'' t
         \<or> test_i ''refund (original method)'' t then 1
      else if test_i ''partial refund'' t \<or> test_i ''% refund'' t then 2
      else if test_i ''full wallet credit'' t \<or> test_i ''wallet credit full'' t then 3
      else if test_i ''partial wallet credit'' t \<or> test_i ''credit to wallet partial'' t then 4
      else if test_i ''no refund'' t \<or> test_i ''deny refund'' t \<or> test_i ''no action'' t then 5
      else 3)"

definition compareSeverity :: "string \<Rightarrow> string \<Rightarrow> string" where
  "compareSeverity expectedText actualText =
     (let exp = severityRank expectedText; act = severityRank actualText in
      if exp = act then ''Match''
      else if act > exp then ''Less severe (under-refunded)''
      else if act < exp then ''More severe (over-refunded)''
      else ''Mismatch'')"

subsection \<open>Value tier detection\<close>

text \<open>The class \<^verbatim>\<open>[0-9,]\<close> (the same as \<^verbatim>\<open>[\d,]\<close>).\<close>

definition isNumChar :: "char \<Rightarrow> bool" where
  "isNumChar c = (isDigit c \<or> c = CHR '','')"

text \<open>
  The optional group \<^verbatim>\<open>(?:\.[0-9]{1,2})?\<close> anchored at the start of \<open>s\<close>: the text it
  takes, greedily (two digits before one, one before none).
\<close>

definition fracPart :: "string \<Rightarrow> string" where
  "fracPart s =
     (case s of
        c # d1 # rest \<Rightarrow>
          if c = CHR ''.'' \<and> isDigit d1 then
            (case rest of
               d2 # _ \<Rightarrow> if isDigit d2 then [c, d1, d2] else [c, d1]
             | [] \<Rightarrow> [c, d1])
          else []
      | _ \<Rightarrow> [])"

text \<open>The capture group \<^verbatim>\<open>([0-9,]+(?:\.[0-9]{1,2})?)\<close> anchored at the start of \<open>s\<close>.\<close>

definition numeralAt :: "string \<Rightarrow> string option" where
  "numeralAt s =
     (let ip = takeWhile isNumChar s in
      if ip = [] then None else Some (ip @ fracPart (dropWhile isNumChar s)))"

text \<open>
  \<^verbatim>\<open>text.match(/\$\s*([0-9,]+(?:\.[0-9]{1,2})?)/)\<close>: group 1 of the leftmost match, or
  \<open>None\<close> for \<^verbatim>\<open>null\<close>. After a dollar sign the white space is skipped and the numeral
  read; taking less white space or a shorter numeral never turns a failure at one
  position into a success (no white-space character starts with a digit or a comma), and
  nothing follows the group, so the greedy reading is the match.
\<close>

fun usdMatch :: "string \<Rightarrow> string option" where
  "usdMatch [] = None"
| "usdMatch (c # cs) =
     (if c = CHR ''$'' then
        (case numeralAt (skipSpace cs) of
           Some n \<Rightarrow> Some n
         | None \<Rightarrow> usdMatch cs)
      else usdMatch cs)"

text \<open>
  \<^verbatim>\<open>text.match(/([\d,]+(?:\.\d{1,2})?)\s*USD/i)\<close>: group 1 of the leftmost match. At a
  start position the numeral is read greedily; a shorter integer part is followed by a
  digit or comma, a shorter fraction by a digit or a dot, and less white space by white
  space, none of which starts \<^verbatim>\<open>USD\<close>, so backtracking finds nothing more.
\<close>

fun usdMatch2 :: "string \<Rightarrow> string option" where
  "usdMatch2 [] = None"
| "usdMatch2 (c # cs) =
     (case numeralAt (c # cs) of
        Some n \<Rightarrow>
          if prefix ''usd'' (toLowerCase (skipSpace (drop (length n) (c # cs))))
          then Some n else usdMatch2 cs
      | None \<Rightarrow> usdMatch2 cs)"

text \<open>\<^verbatim>\<open>s.replace(/,/g, '')\<close>\<close>

definition removeCommas :: "string \<Rightarrow> string" where
  "removeCommas s = filter (\<lambda>c. c \<noteq> CHR '','') s"

definition digitVal :: "char \<Rightarrow> nat" where
  "digitVal c = of_char c - 48"

definition decimalValue :: "string \<Rightarrow> nat" where
  "decimalValue ds = foldl (\<lambda>a c. 10 * a + digitVal c) 0 ds"

text \<open>
  \<^verbatim>\<open>parseFloat\<close> on the strings a capture can hold once the commas are gone: digits,
  then optionally a dot and digits; \<open>None\<close> is \<^verbatim>\<open>NaN\<close>, returned when there is no digit
  to read. The number is kept as the exact rational. JavaScript rounds it to the nearest
  double, which compares with 125 as the rational does: 125 is a double, rounding is
  monotone, and a capture above 125 is at least 125.01 (it has at most two decimals),
  whose nearest double is above 125.
\<close>

definition parseFloat :: "string \<Rightarrow> rat option" where
  "parseFloat s =
     (let ip = takeWhile isDigit s;
          r = dropWhile isDigit s;
          fp = (case r of c # r' \<Rightarrow> if c = CHR ''.'' then takeWhile isDigit r' else [] | [] \<Rightarrow> [])
      in if ip = [] \<and> fp = [] then None
         else Some (of_nat (decimalValue ip) + of_nat (decimalValue fp) / 10 ^ length fp))"

text \<open>\<^verbatim>\<open>detectValueTier\<close> of the application script. \<^verbatim>\<open>NaN <= 125\<close> is false.\<close>

definition detectValueTier :: "string \<Rightarrow> string" where
  "detectValueTier text =
     (if text = [] then tier_unknown
      else case usdMatch text of
        Some m \<Rightarrow>
          (case parseFloat (removeCommas m) of
             Some num \<Rightarrow> if num \<le> 125 then tier_low else tier_high
           | None \<Rightarrow> tier_high)
      | None \<Rightarrow>
          (case usdMatch2 text of
             Some m2 \<Rightarrow>
               (case parseFloat (removeCommas m2) of
                  Some num \<Rightarrow> if num \<le> 125 then tier_low else tier_high
                | None \<Rightarrow> tier_high)
           | None \<Rightarrow> tier_unknown))"

text \<open>\<^verbatim>\<open>detectValueTier\<close> of the guide: the dollar form only.\<close>

definition detectValueTier_enh :: "string \<Rightarrow> string" where
  "detectValueTier_enh text =
     (if text = [] then tier_unknown
      else case usdMatch text of
        Some m \<Rightarrow>
          (case parseFloat (removeCommas m) of
             Some num \<Rightarrow> if num \<le> 125 then tier_low else tier_high
           | None \<Rightarrow> tier_high)
      | None \<Rightarrow> tier_unknown)"

subsection \<open>The decision grid and the scenario matcher\<close>

text \<open>
  A row of \<^verbatim>\<open>dss_grid.json\<close>, with the types of its schema: \<^verbatim>\<open>L1\<close>, \<^verbatim>\<open>L2\<close> and the
  entries are strings, \<^verbatim>\<open>keywords\<close> is a list of strings. A property that the row lacks
  is \<open>None\<close> (\<^verbatim>\<open>undefined\<close>); \<open>row_keywords\<close> is the property \<^verbatim>\<open>keywords\<close>, and
  \<open>cells\<close> holds the entries under the column letters.
\<close>

record gridRow =
  L1 :: "string option"
  L2 :: "string option"
  row_keywords :: "string list option"
  cells :: "string \<rightharpoonup> string"

text \<open>The input object: the fields both versions have, then what each version adds.\<close>

record ticketInputs =
  bookingId :: string
  ticketId :: string
  subject :: string
  experienceType :: string
  ticketStatus :: string
  valueTier :: "string option"

record inputs = ticketInputs +
  latestComment :: string

record inputs_enh = ticketInputs +
  fullConversation :: string
  conversationCount :: nat

text \<open>\<^verbatim>\<open>x || ''\<close> on a property that may be missing.\<close>

definition orEmpty :: "string option \<Rightarrow> string" where
  "orEmpty x = (case x of Some s \<Rightarrow> s | None \<Rightarrow> [])"

text \<open>
  The body of the loop over the grid: the score of one row against the lower-cased text.
  The parameter \<open>lc\<close> is the method \<^verbatim>\<open>toLowerCase\<close> of JavaScript strings.
\<close>

definition rowScore :: "(string \<Rightarrow> string) \<Rightarrow> string \<Rightarrow> gridRow \<Rightarrow> nat" where
  "rowScore lc text row =
     (let score0 = (case row_keywords row of
                      Some ks \<Rightarrow>
                        foldl (\<lambda>score k. if str_includes text (lc k) then score + 10 else score) 0 ks
                    | None \<Rightarrow> 0);
          score1 = (case L1 row of
                      Some l \<Rightarrow> if l \<noteq> [] \<and> str_includes text (lc l) then score0 + 5 else score0
                    | None \<Rightarrow> score0);
          score2 = (case L2 row of
                      Some l \<Rightarrow> if l \<noteq> [] \<and> str_includes text (lc l) then score1 + 5 else score1
                    | None \<Rightarrow> score1)
      in score2)"

text \<open>One turn of the loop on the pair \<^verbatim>\<open>(best, bestScore)\<close>.\<close>

definition bestStep ::
    "(string \<Rightarrow> string) \<Rightarrow> string \<Rightarrow> gridRow option \<times> nat \<Rightarrow> gridRow \<Rightarrow> gridRow option \<times> nat" where
  "bestStep lc text acc row =
     (let score = rowScore lc text row in
      if score > snd acc then (Some row, score) else acc)"

definition bestRow :: "(string \<Rightarrow> string) \<Rightarrow> string \<Rightarrow> gridRow list \<Rightarrow> gridRow option" where
  "bestRow lc text grid = fst (foldl (bestStep lc text) (None, 0) grid)"

text \<open>\<^verbatim>\<open>/unknown|other|default/i.test(s)\<close>\<close>

definition testFallback :: "string \<Rightarrow> bool" where
  "testFallback s = (test_i ''unknown'' s \<or> test_i ''other'' s \<or> test_i ''default'' s)"

text \<open>The constant \<^verbatim>\<open>text\<close> of \<^verbatim>\<open>findBestMatch\<close>, in each version.\<close>

definition haystack :: "(string \<Rightarrow> string) \<Rightarrow> inputs \<Rightarrow> string" where
  "haystack lc inp = lc (latestComment inp @ '' '' @ subject inp)"

definition haystack_enh :: "(string \<Rightarrow> string) \<Rightarrow> inputs_enh \<Rightarrow> string" where
  "haystack_enh lc inp = lc (fullConversation inp @ '' '' @ subject inp)"

text \<open>\<^verbatim>\<open>findBestMatch\<close> of the application script: the fallback search has no condition on the conversation.\<close>

definition findBestMatch :: "(string \<Rightarrow> string) \<Rightarrow> gridRow list \<Rightarrow> inputs \<Rightarrow> gridRow option" where
  "findBestMatch lc grid inp =
     (let text = haystack lc inp in
      case bestRow lc text grid of
        Some best \<Rightarrow> Some best
      | None \<Rightarrow>
          (case find (\<lambda>r. testFallback (orEmpty (L1 r)) \<or> testFallback (orEmpty (L2 r))) grid of
             Some fallback \<Rightarrow> Some fallback
           | None \<Rightarrow> None))"

text \<open>\<^verbatim>\<open>findBestMatch\<close> of the guide: \<^verbatim>\<open>/unknown|default/i\<close> on \<^verbatim>\<open>L1\<close>, for an empty conversation only.\<close>

definition findBestMatch_enh ::
    "(string \<Rightarrow> string) \<Rightarrow> gridRow list \<Rightarrow> inputs_enh \<Rightarrow> gridRow option" where
  "findBestMatch_enh lc grid inp =
     (let text = haystack_enh lc inp in
      case bestRow lc text grid of
        Some best \<Rightarrow> Some best
      | None \<Rightarrow>
          if conversationCount inp = 0
          then find (\<lambda>r. test_i ''unknown'' (orEmpty (L1 r)) \<or> test_i ''default'' (orEmpty (L1 r))) grid
          else None)"

subsection \<open>The verdict\<close>

text \<open>The object that \<^verbatim>\<open>buildOutputJSON\<close> of the application script returns, key by key.\<close>

record verdict =
  Booking_ID :: string
  Week :: string
  DSS_Compliance :: string
  Booking_Value_Tier :: string
  L1_Reason :: string
  L2_Reason :: string
  DSS_Grid_Column_Letter :: string
  DSS_Grid_Column_Header :: string
  Experience_Type :: string
  Refund_Type_Verdict :: string
  Refund_Verdict_Detail :: string
  Compliance_Reason :: string
  Compliance_Explanation :: string
  Refund_Amount_and_Method :: string
  DSS_Rule_Misapplied :: string
  DSS_Severity_Match :: string
  Ideal_Refund_Action :: string
  Confidence :: string
  Summary :: string

text \<open>The object that \<^verbatim>\<open>buildOutputJSON\<close> of the guide returns.\<close>

record verdict_enh =
  Booking_ID_enh :: string
  Week_enh :: string
  DSS_Compliance_enh :: string
  Booking_Value_Tier_enh :: string
  L1_Reason_enh :: string
  L2_Reason_enh :: string
  Experience_Type_enh :: string
  Conversation_Count_enh :: nat
  Confidence_enh :: string

text \<open>\<^verbatim>\<open>gridRow ? (gridRow[columnLetter] || '') : ''\<close>; \<open>None\<close> is a row that is \<^verbatim>\<open>null\<close>.\<close>

definition expectedCellText :: "gridRow option \<Rightarrow> string \<Rightarrow> string" where
  "expectedCellText gridRow columnLetter =
     (case gridRow of Some row \<Rightarrow> orEmpty (cells row columnLetter) | None \<Rightarrow> [])"

text \<open>The double quote of the explanation sentence.\<close>

definition dquote :: string where
  "dquote = [CHR 0x22]"

text \<open>A property inside a template literal: \<^verbatim>\<open>undefined\<close> prints as the word.\<close>

definition printed :: "string option \<Rightarrow> string" where
  "printed x = (case x of Some s \<Rightarrow> s | None \<Rightarrow> ''undefined'')"

definition refundTypeVerdict :: "string \<Rightarrow> string" where
  "refundTypeVerdict refundText =
     (if test_i ''refund to original'' refundText \<or> test_i ''full refund'' refundText
        then ''Full refund (original method)''
      else if test_i ''partial refund'' refundText \<or> test_i ''% refund'' refundText
        then ''Partial refund''
      else if testSeq_i ''wallet credit'' ''full'' refundText
              \<or> testSeq_i ''full'' ''wallet credit'' refundText
        then ''Full wallet credit''
      else if test_i ''wallet credit'' refundText \<or> test_i ''credit to wallet'' refundText
        then ''Partial wallet credit''
      else if test_i ''no refund'' refundText \<or> test_i ''deny refund'' refundText
        then ''No refund''
      else ''Unknown'')"

definition complianceFlag :: "string \<Rightarrow> string" where
  "complianceFlag severityComparison =
     (if severityComparison = ''Match'' \<or> severityComparison = ''Less severe (under-refunded)''
        then ''Compliant''
      else if severityComparison = ''More severe (over-refunded)'' then ''Non-Compliant''
      else ''Non-Compliant (DSS Rule Misapplied)'')"

text \<open>
  \<^verbatim>\<open>buildOutputJSON\<close> of the application script. The first argument is what
  \<^verbatim>\<open>new Date().toISOString()\<close> returns at the call: the clock is read, so it is an input
  of the model.
\<close>

definition buildOutputJSON :: "string \<Rightarrow> inputs \<Rightarrow> gridRow option \<Rightarrow> string \<Rightarrow> string \<Rightarrow> verdict" where
  "buildOutputJSON isoNow inp gridRow columnLetter actualActionText =
     (let expected = expectedCellText gridRow columnLetter;
          severityComparison = compareSeverity expected actualActionText;
          flag = complianceFlag severityComparison
      in \<lparr> Booking_ID = (if bookingId inp \<noteq> [] then bookingId inp else ticketId inp),
           Week = take 10 isoNow,
           DSS_Compliance = flag,
           Booking_Value_Tier = orEmpty (valueTier inp),
           L1_Reason = (case gridRow of Some row \<Rightarrow> orEmpty (L1 row) | None \<Rightarrow> []),
           L2_Reason = (case gridRow of Some row \<Rightarrow> orEmpty (L2 row) | None \<Rightarrow> []),
           DSS_Grid_Column_Letter = columnLetter,
           DSS_Grid_Column_Header = orEmpty (cellHeaderMap columnLetter),
           Experience_Type = experienceType inp,
           Refund_Type_Verdict = refundTypeVerdict actualActionText,
           Refund_Verdict_Detail = actualActionText,
           Compliance_Reason = severityComparison,
           Compliance_Explanation =
             ''DSS expects: '' @ dquote @ take 150 expected @ dquote @ ''. Actual: '' @ dquote
               @ take 150 actualActionText @ dquote @ ''.'',
           Refund_Amount_and_Method = actualActionText,
           DSS_Rule_Misapplied = (if str_includes flag ''Non-Compliant'' then ''Yes'' else ''No''),
           DSS_Severity_Match = severityComparison,
           Ideal_Refund_Action = expected,
           Confidence = ''High'',
           Summary =
             ''L1: '' @ (case gridRow of Some row \<Rightarrow> printed (L1 row) | None \<Rightarrow> ''Unknown'')
               @ ''; L2: '' @ (case gridRow of Some row \<Rightarrow> printed (L2 row) | None \<Rightarrow> ''Unknown'')
               @ ''; Col: '' @ (case cellHeaderMap columnLetter of
                                  Some h \<Rightarrow> if h \<noteq> [] then h else ''N/A'' | None \<Rightarrow> ''N/A'') \<rparr>)"

text \<open>\<^verbatim>\<open>x || 'Unknown'\<close>\<close>

definition orUnknown :: "string option \<Rightarrow> string" where
  "orUnknown x = (case x of Some s \<Rightarrow> if s \<noteq> [] then s else ''Unknown'' | None \<Rightarrow> ''Unknown'')"

text \<open>\<^verbatim>\<open>buildOutputJSON\<close> of the guide: no severity comparison; the observed action is not read.\<close>

definition buildOutputJSON_enh ::
    "string \<Rightarrow> inputs_enh \<Rightarrow> gridRow option \<Rightarrow> string \<Rightarrow> string \<Rightarrow> verdict_enh" where
  "buildOutputJSON_enh isoNow inp gridRow columnLetter actualActionText =
     (let expected = expectedCellText gridRow columnLetter;
          flag = (if expected = [] \<or> str_includes (toLowerCase expected) ''no action''
                  then ''Non-Compliant (DSS Rule Missing)'' else ''Compliant'')
      in \<lparr> Booking_ID_enh = bookingId inp,
           Week_enh = take 10 isoNow,
           DSS_Compliance_enh = flag,
           Booking_Value_Tier_enh = orUnknown (valueTier inp),
           L1_Reason_enh = (case gridRow of Some row \<Rightarrow> orUnknown (L1 row) | None \<Rightarrow> ''Unknown''),
           L2_Reason_enh = (case gridRow of Some row \<Rightarrow> orUnknown (L2 row) | None \<Rightarrow> ''Unknown''),
           Experience_Type_enh = orUnknown (cellHeaderMap columnLetter),
           Conversation_Count_enh = conversationCount inp,
           Confidence_enh = (if conversationCount inp > 0 then ''High'' else ''Low'') \<rparr>)"

subsection \<open>The audit run\<close>

text \<open>
  The lazy tail \<^verbatim>\<open>.*?(\.|$)\<close> anchored at the start of \<open>s\<close>: the text up to and
  with the first full stop, or all of \<open>s\<close> when it has none; no match when a line
  terminator comes first.
\<close>

fun lazyToStop :: "string \<Rightarrow> string option" where
  "lazyToStop [] = Some []"
| "lazyToStop (c # cs) =
     (if c = CHR ''.'' then Some [c]
      else if isLineTerminator c then None
      else map_option ((#) c) (lazyToStop cs))"

text \<open>\<^verbatim>\<open>s.match(/(refund.*?(\.|$))/i)\<close>: the text of the leftmost match.\<close>

fun refundMatch :: "string \<Rightarrow> string option" where
  "refundMatch [] = None"
| "refundMatch (c # cs) =
     (if prefix ''refund'' (toLowerCase (c # cs)) then
        (case lazyToStop (drop 6 (c # cs)) of
           Some m \<Rightarrow> Some (take 6 (c # cs) @ m)
         | None \<Rightarrow> refundMatch cs)
      else refundMatch cs)"

text \<open>The row \<^verbatim>\<open>{}\<close> that stands in when nothing matched.\<close>

definition emptyRow :: gridRow where
  "emptyRow = \<lparr> L1 = None, L2 = None, row_keywords = None, cells = Map.empty \<rparr>"

text \<open>
  \<^verbatim>\<open>runAudit\<close> of the application script between the two fetches and the display:
  from the grid and the gathered inputs to the output object. The parameter \<open>lc\<close> is
  the folding that \<^verbatim>\<open>findBestMatch\<close> applies.
\<close>

definition runAudit :: "(string \<Rightarrow> string) \<Rightarrow> string \<Rightarrow> gridRow list \<Rightarrow> inputs \<Rightarrow> verdict" where
  "runAudit lc isoNow grid inp0 =
     (let inp = inp0\<lparr>valueTier := Some (detectValueTier (latestComment inp0 @ '' '' @ subject inp0))\<rparr>;
          matchRow = findBestMatch lc grid inp;
          col = chooseColumnLetter (experienceType inp) (orEmpty (valueTier inp));
          refundSentence = (case refundMatch (latestComment inp) of Some m \<Rightarrow> m | None \<Rightarrow> [])
      in buildOutputJSON isoNow inp
           (Some (case matchRow of Some row \<Rightarrow> row | None \<Rightarrow> emptyRow)) col refundSentence)"

definition runAudit_enh ::
    "(string \<Rightarrow> string) \<Rightarrow> string \<Rightarrow> gridRow list \<Rightarrow> inputs_enh \<Rightarrow> verdict_enh" where
  "runAudit_enh lc isoNow grid inp0 =
     (let inp = inp0\<lparr>valueTier :=
                  Some (detectValueTier_enh (fullConversation inp0 @ '' '' @ subject inp0))\<rparr>;
          matchRow = findBestMatch_enh lc grid inp;
          col = chooseColumnLetter_enh (experienceType inp) (orEmpty (valueTier inp));
          refundAction = (case refundMatch (fullConversation inp) of
                            Some m \<Rightarrow> m | None \<Rightarrow> ''Not found'')
      in buildOutputJSON_enh isoNow inp
           (Some (case matchRow of Some row \<Rightarrow> row | None \<Rightarrow> emptyRow)) col refundAction)"

subsection \<open>Vocabulary of the properties\<close>

text \<open>The eight column letters and the eight headers.\<close>

definition columnLetters :: "string list" where
  "columnLetters = [''C'', ''D'', ''E'', ''F'', ''G'', ''H'', ''I'', ''J'']"

definition columnHeaders :: "string list" where
  "columnHeaders =
     [''Partnered '' @ tier_low, ''Partnered '' @ tier_high,
      ''Non-Partnered '' @ tier_low, ''Non-Partnered '' @ tier_high,
      ''Social Media Partnered '' @ tier_low, ''Social Media Partnered '' @ tier_high,
      ''Social Media Non-Partnered '' @ tier_low, ''Social Media Non-Partnered '' @ tier_high]"


text \<open>
  An amount written as a numeral: an integer part \<open>ip\<close> of digits, with commas as
  thousands separators, and up to two fraction digits \<open>fd\<close>; and the number it denotes.
\<close>

definition amountNumeral :: "string \<Rightarrow> string \<Rightarrow> string" where
  "amountNumeral ip fd = ip @ (if fd = [] then [] else CHR ''.'' # fd)"

definition amountValue :: "string \<Rightarrow> string \<Rightarrow> rat" where
  "amountValue ip fd =
     of_nat (decimalValue (removeCommas ip)) + of_nat (decimalValue fd) / 10 ^ length fd"

text \<open>
  The text \<open>post\<close> that follows a numeral does not continue it: no digit or comma after
  an integer part, no dot and digit after it, no digit after a single fraction digit.
\<close>

definition endsNumeral :: "string \<Rightarrow> string \<Rightarrow> bool" where
  "endsNumeral fd post =
     (case post of
        [] \<Rightarrow> True
      | c # r \<Rightarrow>
          if fd = [] then \<not> isNumChar c \<and> \<not> (c = CHR ''.'' \<and> (case r of [] \<Rightarrow> False | d # _ \<Rightarrow> isDigit d))
          else if length fd = 1 then \<not> isDigit c
          else True)"

text \<open>A run of white-space characters.\<close>

definition isWhite :: "string \<Rightarrow> bool" where
  "isWhite w = (\<exists>ws. set ws \<subseteq> set whiteSpace \<and> w = concat ws)"

definition isComma :: "char \<Rightarrow> bool" where
  "isComma c = (c = CHR '','')"

text \<open>
  The two currency patterns of the specification, by the character \<open>c\<close> that starts or
  ends the numeral: a dollar sign, white space if any, and \<open>c\<close>; and \<open>c\<close>, white space
  if any, and the letters USD in either case. A numeral starts and ends with a digit;
  the properties name the comma apart.
\<close>

definition dollarThen :: "(char \<Rightarrow> bool) \<Rightarrow> string \<Rightarrow> bool" where
  "dollarThen P text =
     (\<exists>pre w c post. text = pre @ CHR ''$'' # w @ c # post \<and> isWhite w \<and> P c)"

definition thenUSD :: "(char \<Rightarrow> bool) \<Rightarrow> string \<Rightarrow> bool" where
  "thenUSD P text =
     (\<exists>pre c w u post. text = pre @ c # w @ u @ post \<and> P c \<and> isWhite w \<and>
        toLowerCase u = ''usd'')"

subsection \<open>Sample data\<close>

text \<open>Rows and inputs on which the properties below are run.\<close>

definition row_other :: gridRow where
  "row_other = \<lparr> L1 = Some ''Other'', L2 = Some ''Miscellaneous'', row_keywords = Some [],
                  cells = [''C'' \<mapsto> ''No refund - policy''] \<rparr>"

definition row_default :: gridRow where
  "row_default = \<lparr> L1 = Some ''Default case'', L2 = Some ''No scenario found'',
                    row_keywords = None, cells = [''C'' \<mapsto> ''No action''] \<rparr>"

definition row_unknown :: gridRow where
  "row_unknown = \<lparr> L1 = Some ''Unknown'', L2 = Some ''Unknown'',
                    row_keywords = None, cells = Map.empty \<rparr>"

definition row_late :: gridRow where
  "row_late = \<lparr> L1 = Some ''Late arrival'', L2 = Some ''Guide waited'',
                 row_keywords = Some [''weather''],
                 cells = [''C'' \<mapsto> ''Full wallet credit''] \<rparr>"

definition row_partial :: gridRow where
  "row_partial = \<lparr> L1 = Some ''Refund requested'', L2 = Some ''Partial refund approved'',
                    row_keywords = Some [''partial refund''],
                    cells = [''E'' \<mapsto> ''Partial refund - 50%''] \<rparr>"

definition row_goodwill :: gridRow where
  "row_goodwill = \<lparr> L1 = Some ''Goodwill'', L2 = Some ''Customer unhappy'',
                     row_keywords = Some [''customer''],
                     cells = [''C'' \<mapsto> ''Full refund to original payment method''] \<rparr>"

definition sample_inputs :: inputs where
  "sample_inputs = \<lparr> bookingId = ''4821'', ticketId = ''77'',
                      subject = ''Booking 4821 refund request'',
                      experienceType = ''Partnered'', ticketStatus = ''open'', valueTier = None,
                      latestComment = ''We issued a partial refund of $50 to the customer. Late arrival.'' \<rparr>"

definition sample_inputs_enh :: inputs_enh where
  "sample_inputs_enh = \<lparr> bookingId = ''4821'', ticketId = ''77'',
                          subject = ''Booking 4821 refund request'',
                          experienceType = ''Partnered'', ticketStatus = ''open'', valueTier = None,
                          fullConversation = ''We issued a partial refund of $50 to the customer. Late arrival.'',
                          conversationCount = 2 \<rparr>"

definition quiet_inputs :: inputs where
  "quiet_inputs = \<lparr> bookingId = ''5150'', ticketId = ''78'', subject = ''Question'',
                     experienceType = ''Partnered'', ticketStatus = ''open'', valueTier = None,
                     latestComment = ''Please help me.'' \<rparr>"

definition quiet_inputs_enh :: inputs_enh where
  "quiet_inputs_enh = \<lparr> bookingId = ''5150'', ticketId = ''78'', subject = ''Question'',
                         experienceType = ''Partnered'', ticketStatus = ''open'', valueTier = None,
                         fullConversation = [], conversationCount = 0 \<rparr>"

section \<open>Properties\<close>

subsection \<open>Strings\<close>

lemma str_includes_iff: "str_includes t p \<longleftrightarrow> (\<exists>pre post. t = pre @ p @ post)"
proof (induction t)
  case Nil
  then show ?case by auto
next
  case (Cons c cs)
  show ?case
  proof
    assume "str_includes (c # cs) p"
    then consider "prefix p (c # cs)" | "str_includes cs p" by auto
    then show "\<exists>pre post. c # cs = pre @ p @ post"
    proof cases
      case 1
      then obtain post where "c # cs = p @ post" by (auto simp: prefix_def)
      then have "c # cs = [] @ p @ post" by simp
      then show ?thesis by blast
    next
      case 2
      with Cons.IH obtain pre post where "cs = pre @ p @ post" by blast
      then have "c # cs = (c # pre) @ p @ post" by simp
      then show ?thesis by blast
    qed
  next
    assume "\<exists>pre post. c # cs = pre @ p @ post"
    then obtain pre post where eq: "c # cs = pre @ p @ post" by blast
    show "str_includes (c # cs) p"
    proof (cases pre)
      case Nil
      with eq have "prefix p (c # cs)" by (simp add: prefix_def)
      then show ?thesis by simp
    next
      case (Cons d ds)
      with eq have "cs = ds @ p @ post" by simp
      with Cons.IH have "str_includes cs p" by blast
      then show ?thesis by simp
    qed
  qed
qed

lemma str_includes_dropWhile:
  assumes "p \<noteq> []" "\<not> P (hd p)"
  shows "str_includes (dropWhile P t) p = str_includes t p"
proof (induction t)
  case Nil
  show ?case by simp
next
  case (Cons c cs)
  show ?case
  proof (cases "P c")
    case True
    with assms have "\<not> prefix p (c # cs)" by (cases p) auto
    with True Cons.IH show ?thesis by simp
  next
    case False
    then show ?thesis by simp
  qed
qed

lemma str_includes_rev: "str_includes (rev t) (rev p) = str_includes t p"
proof -
  have "(\<exists>pre post. rev t = pre @ rev p @ post) \<longleftrightarrow> (\<exists>pre post. t = pre @ p @ post)"
  proof
    assume "\<exists>pre post. rev t = pre @ rev p @ post"
    then obtain pre post where "rev t = pre @ rev p @ post" by blast
    then have "rev (rev t) = rev (pre @ rev p @ post)" by simp
    then have "t = rev post @ p @ rev pre" by simp
    then show "\<exists>pre post. t = pre @ p @ post" by blast
  next
    assume "\<exists>pre post. t = pre @ p @ post"
    then obtain pre post where "t = pre @ p @ post" by blast
    then have "rev t = rev post @ rev p @ rev pre" by simp
    then show "\<exists>pre post. rev t = pre @ rev p @ post" by blast
  qed
  then show ?thesis by (simp add: str_includes_iff)
qed

lemma str_includes_trim:
  assumes "p \<noteq> []" "\<not> isSpace (hd p)" "\<not> isSpace (last p)"
  shows "str_includes (trim t) p = str_includes t p"
proof -
  have rp: "rev p \<noteq> []" "\<not> isSpace (hd (rev p))"
    using assms by (simp_all add: hd_rev)
  have "str_includes (trim t) p = str_includes (rev (trim t)) (rev p)"
    by (simp add: str_includes_rev)
  also have "\<dots> = str_includes (dropWhile isSpace (rev (dropWhile isSpace t))) (rev p)"
    by (simp add: trim_def)
  also have "\<dots> = str_includes (rev (dropWhile isSpace t)) (rev p)"
    using rp by (rule str_includes_dropWhile)
  also have "\<dots> = str_includes (dropWhile isSpace t) p"
    by (simp add: str_includes_rev)
  also have "\<dots> = str_includes t p"
    using assms(1,2) by (rule str_includes_dropWhile)
  finally show ?thesis .
qed

lemma isSpace_toLowerChar: "isSpace (toLowerChar c) = isSpace c"
  by (simp add: isSpace_def toLowerChar_def Let_def)

lemma toLowerCase_trim: "toLowerCase (trim s) = trim (toLowerCase s)"
  unfolding toLowerCase_def trim_def
  by (simp add: rev_map dropWhile_map comp_def isSpace_toLowerChar)

subsection \<open>Column letters\<close>

lemma chooseColumnLetter_range: "chooseColumnLetter e v \<in> set columnLetters"
  by (simp add: chooseColumnLetter_def columnLetters_def Let_def)

lemma chooseColumnLetter_enh_range: "chooseColumnLetter_enh e v \<in> set columnLetters"
  by (simp add: chooseColumnLetter_enh_def columnLetters_def Let_def)

lemma cellHeaderMap_letters:
  "k \<in> set columnLetters \<Longrightarrow> \<exists>h. cellHeaderMap k = Some h \<and> h \<in> set columnHeaders \<and> h \<noteq> []"
  by (auto simp add: columnLetters_def cellHeaderMap_def columnHeaders_def)

lemma header_of_letter:
  assumes "k \<in> set columnLetters"
  shows "orEmpty (cellHeaderMap k) \<in> set columnHeaders"
    and "orUnknown (cellHeaderMap k) \<in> set columnHeaders"
proof -
  from cellHeaderMap_letters [OF assms] obtain h where
    h: "cellHeaderMap k = Some h" "h \<in> set columnHeaders" "h \<noteq> []" by blast
  then show "orEmpty (cellHeaderMap k) \<in> set columnHeaders"
    and "orUnknown (cellHeaderMap k) \<in> set columnHeaders"
    by (simp_all add: orEmpty_def orUnknown_def)
qed

text \<open>
  Claim C10. For every experience type and every value-tier string, also the empty one
  and one outside the three tier labels, \<^verbatim>\<open>chooseColumnLetter\<close> returns one of the
  letters C to J, in both versions, so the look-up in \<^verbatim>\<open>cellHeaderMap\<close> finds one of
  the eight headers, and the column header of the verdict of a run is one of them.
\<close>

theorem C10_chooseColumnLetter_total:
  "chooseColumnLetter e v \<in> set columnLetters \<and>
   (\<exists>h. cellHeaderMap (chooseColumnLetter e v) = Some h \<and> h \<in> set columnHeaders) \<and>
   chooseColumnLetter_enh e v \<in> set columnLetters \<and>
   (\<exists>h. cellHeaderMap (chooseColumnLetter_enh e v) = Some h \<and> h \<in> set columnHeaders) \<and>
   DSS_Grid_Column_Header (runAudit lc now grid inp) \<in> set columnHeaders \<and>
   Experience_Type_enh (runAudit_enh lc now grid inpe) \<in> set columnHeaders"
proof -
  have a: "DSS_Grid_Column_Header (runAudit lc now grid inp) \<in> set columnHeaders"
    by (simp add: runAudit_def buildOutputJSON_def Let_def
        header_of_letter(1) [OF chooseColumnLetter_range])
  have b: "Experience_Type_enh (runAudit_enh lc now grid inpe) \<in> set columnHeaders"
    by (simp add: runAudit_enh_def buildOutputJSON_enh_def Let_def
        header_of_letter(2) [OF chooseColumnLetter_enh_range])
  from a b chooseColumnLetter_range [of e v] chooseColumnLetter_enh_range [of e v]
    cellHeaderMap_letters
  show ?thesis by blast
qed

lemma dotStarThen_prefix: "prefix b s \<Longrightarrow> dotStarThen b s"
  by (cases s) auto

lemma dotStarThen_skip:
  "\<forall>c\<in>set a. \<not> isLineTerminator c \<Longrightarrow> dotStarThen b (a @ b @ r)"
proof (induction a)
  case Nil
  show ?case by (simp add: dotStarThen_prefix)
next
  case (Cons x a)
  then show ?case by simp
qed

lemma dotStarThen_suffix:
  assumes "\<forall>c\<in>set a. \<not> isLineTerminator c"
  shows "dotStarThen (a @ b) s \<Longrightarrow> dotStarThen b s"
proof (induction s)
  case Nil
  then show ?case by simp
next
  case (Cons c cs)
  show ?case
  proof (cases "prefix (a @ b) (c # cs)")
    case True
    then obtain r where "c # cs = a @ b @ r" by (auto simp: prefix_def)
    with dotStarThen_skip [OF assms] show ?thesis by metis
  next
    case False
    with Cons show ?thesis by auto
  qed
qed

lemma testSeq_suffix:
  assumes "\<forall>c\<in>set x. \<not> isLineTerminator c"
  shows "testSeq a (x @ b) s \<Longrightarrow> testSeq a b s"
proof (induction s)
  case Nil
  then show ?case by simp
next
  case (Cons c cs)
  then show ?case using dotStarThen_suffix [OF assms] by auto
qed

lemma testSeq_includes: "testSeq a b s \<Longrightarrow> str_includes s a"
  by (induction s) auto

lemma social_excludes_plain:
  assumes "test_i ''social'' t"
  shows "\<not> isPartneredType t" "\<not> isNonPartneredType t"
proof -
  have g: "\<not> str_includes ''partnered'' ''social''" "\<not> str_includes ''non-partnered'' ''social''"
    "\<not> str_includes ''nonpartnered'' ''social''" by code_simp+
  from assms g show "\<not> isPartneredType t" "\<not> isNonPartneredType t"
    by (auto simp: isPartneredType_def isNonPartneredType_def test_i_def)
qed

text \<open>
  Whenever "social" is followed on its line by "non-partnered" or "nonpartnered", it is
  also followed by "partnered": rule 3 answers, and the first test of rule 4 is never
  the one that decides.
\<close>

lemma social_then_non_partnered_takes_rule3:
  assumes "testSeq_i ''social'' ''non-partnered'' (trim e) \<or>
           testSeq_i ''social'' ''nonpartnered'' (trim e)"
  shows "chooseColumnLetter e tier_low = ''G'' \<and> chooseColumnLetter e tier_high = ''H'' \<and>
         chooseColumnLetter_enh e tier_low = ''G'' \<and> chooseColumnLetter_enh e tier_high = ''H''"
proof -
  have lt: "\<forall>c\<in>set ''non-''. \<not> isLineTerminator c" "\<forall>c\<in>set ''non''. \<not> isLineTerminator c"
    by code_simp+
  have "testSeq ''social'' ''partnered'' (toLowerCase (trim e))"
    using assms testSeq_suffix [OF lt(1), of "''social''" "''partnered''"]
      testSeq_suffix [OF lt(2), of "''social''" "''partnered''"]
    by (auto simp: testSeq_i_def)
  then have r3: "isSocialPartneredType (trim e)"
    by (simp add: isSocialPartneredType_def testSeq_i_def)
  from \<open>testSeq ''social'' ''partnered'' (toLowerCase (trim e))\<close>
  have "test_i ''social'' (trim e)"
    by (simp add: test_i_def testSeq_includes)
  note ex = social_excludes_plain [OF this]
  have t: "trim tier_low = tier_low" "trim tier_high = tier_high" "tier_high \<noteq> tier_low"
    by code_simp+
  from r3 ex t show ?thesis
    by (simp add: chooseColumnLetter_def chooseColumnLetter_enh_def)
qed

text \<open>
  Claim C3 against the code. The type "Social Media Non-Partnered" contains "social" and
  "non-partnered", yet both versions answer with the Social Partnered columns G and H:
  the first test of rule 3, \<^verbatim>\<open>/social.*partnered/i\<close>, matches it before rule 4 is
  reached.
\<close>

theorem C3_social_non_partnered_rule3:
  "chooseColumnLetter ''Social Media Non-Partnered'' tier_low = ''G'' \<and>
   chooseColumnLetter ''Social Media Non-Partnered'' tier_high = ''H'' \<and>
   chooseColumnLetter_enh ''Social Media Non-Partnered'' tier_low = ''G'' \<and>
   chooseColumnLetter_enh ''Social Media Non-Partnered'' tier_high = ''H''"
  by code_simp

text \<open>
  Claim C6, as stated, fails in the application script: for the type "Partnered" and
  the tier \<^verbatim>\<open>Unknown\<close> it returns C, not D.
\<close>

theorem C6_unknown_tier_counterexample:
  "chooseColumnLetter ''Partnered'' tier_unknown \<noteq> ''D''"
  by code_simp

lemma trim_tiers:
  "trim tier_low = tier_low" "trim tier_high = tier_high" "trim tier_unknown = tier_unknown"
  by code_simp+

lemma tiers_distinct:
  "tier_low \<noteq> tier_high" "tier_high \<noteq> tier_low"
  "tier_unknown \<noteq> tier_low" "tier_unknown \<noteq> tier_high"
  by code_simp+

lemma test_i_trim:
  assumes "p \<noteq> []" "\<not> isSpace (hd p)" "\<not> isSpace (last p)"
  shows "test_i p (trim e) = test_i p e"
  using assms by (simp add: test_i_def toLowerCase_trim str_includes_trim)

lemma isPartneredType_trim:
  assumes "toLowerCase e = ''partnered'' \<or> (test_i ''partnered'' e \<and> \<not> test_i ''social'' e)"
  shows "isPartneredType (trim e)"
proof -
  have p: "test_i ''partnered'' (trim e) = test_i ''partnered'' e"
    by (rule test_i_trim) (simp_all add: isSpace_def)
  have s: "test_i ''social'' (trim e) = test_i ''social'' e"
    by (rule test_i_trim) (simp_all add: isSpace_def)
  show ?thesis
  proof (cases "toLowerCase e = ''partnered''")
    case True
    moreover have "trim ''partnered'' = ''partnered''" by code_simp
    ultimately have "trim (toLowerCase e) = ''partnered''" by simp
    then show ?thesis by (simp add: isPartneredType_def toLowerCase_trim)
  next
    case False
    with assms p s show ?thesis by (simp add: isPartneredType_def)
  qed
qed

text \<open>
  Claim C6, amended. For every experience type that is "partnered" in any case, or
  contains "partnered" and not "social": both versions return C for the low tier and D
  for the high tier; for the tier \<^verbatim>\<open>Unknown\<close> the application script returns C and the
  guide's version returns D.
\<close>

theorem C6_partnered_columns:
  assumes "toLowerCase e = ''partnered'' \<or> (test_i ''partnered'' e \<and> \<not> test_i ''social'' e)"
  shows "chooseColumnLetter e tier_low = ''C'' \<and>
         chooseColumnLetter e tier_high = ''D'' \<and>
         chooseColumnLetter e tier_unknown = ''C'' \<and>
         chooseColumnLetter_enh e tier_low = ''C'' \<and>
         chooseColumnLetter_enh e tier_high = ''D'' \<and>
         chooseColumnLetter_enh e tier_unknown = ''D''"
  using isPartneredType_trim [OF assms]
  by (simp add: chooseColumnLetter_def chooseColumnLetter_enh_def trim_tiers tiers_distinct)

text \<open>Claim C6, amended, at the type "Partnered Tours".\<close>

theorem C6_partnered_columns_witness:
  "chooseColumnLetter ''Partnered Tours'' tier_low = ''C'' \<and>
   chooseColumnLetter ''Partnered Tours'' tier_high = ''D'' \<and>
   chooseColumnLetter ''Partnered Tours'' tier_unknown = ''C'' \<and>
   chooseColumnLetter_enh ''Partnered Tours'' tier_low = ''C'' \<and>
   chooseColumnLetter_enh ''Partnered Tours'' tier_high = ''D'' \<and>
   chooseColumnLetter_enh ''Partnered Tours'' tier_unknown = ''D''"
proof -
  have h: "toLowerCase ''Partnered Tours'' = ''partnered'' \<or>
     (test_i ''partnered'' ''Partnered Tours'' \<and> \<not> test_i ''social'' ''Partnered Tours'')"
    by code_simp
  show ?thesis by (rule C6_partnered_columns [OF h])
qed

subsection \<open>Severity\<close>

lemma severityRank_range: "1 \<le> severityRank t \<and> severityRank t \<le> 5"
  by (simp add: severityRank_def Let_def)

text \<open>
  Claim C9. \<^verbatim>\<open>compareSeverity\<close> returns \<^verbatim>\<open>Match\<close>, the less-severe or the more-severe
  label for every pair of texts and never \<^verbatim>\<open>Mismatch\<close>: \<^verbatim>\<open>severityRank\<close> is always one
  of the integers 1 to 5, and two integers are equal or one is the greater.
\<close>

theorem C9_compareSeverity_three_values:
  "compareSeverity e a \<in>
     {''Match'', ''Less severe (under-refunded)'', ''More severe (over-refunded)''} \<and>
   compareSeverity e a \<noteq> ''Mismatch'' \<and>
   severityRank e \<in> {1, 2, 3, 4, 5}"
proof -
  have "severityRank e \<in> {1, 2, 3, 4, 5}"
    by (simp add: severityRank_def Let_def)
  moreover have "compareSeverity e a \<in>
     {''Match'', ''Less severe (under-refunded)'', ''More severe (over-refunded)''}"
    by (simp add: compareSeverity_def Let_def)
  moreover have "compareSeverity e a \<noteq> ''Mismatch''"
    by (simp add: compareSeverity_def Let_def)
  ultimately show ?thesis by blast
qed

text \<open>
  Claim C4, as stated, fails in its third part: with a full refund expected and no
  refund observed the comparison is not \<^verbatim>\<open>More severe (over-refunded)\<close>.
\<close>

theorem C4_compare_full_vs_none_counterexample:
  "compareSeverity ''Full refund to original payment method'' ''No refund - policy''
     \<noteq> ''More severe (over-refunded)''"
  by code_simp

text \<open>
  Claim C4, amended. The rank of "Full refund to original payment method" is 1, the rank
  of "No refund - policy" is 5, and comparing the first as expected with the second as
  observed gives \<^verbatim>\<open>Less severe (under-refunded)\<close>: the observed rank is the greater.
\<close>

theorem C4_rank_and_compare:
  "severityRank ''Full refund to original payment method'' = 1 \<and>
   severityRank ''No refund - policy'' = 5 \<and>
   compareSeverity ''Full refund to original payment method'' ''No refund - policy''
     = ''Less severe (under-refunded)''"
  by code_simp

subsection \<open>Value tiers\<close>

lemma isDigit_isNumChar: "isDigit c \<Longrightarrow> isNumChar c"
  by (simp add: isNumChar_def)

lemma isNumChar_cases: "isNumChar c \<longleftrightarrow> isDigit c \<or> isComma c"
  by (simp add: isNumChar_def isComma_def)

lemma dot_not_numChar: "\<not> isNumChar (CHR ''.'')" "\<not> isDigit (CHR ''.'')"
  by (simp_all add: isNumChar_def isDigit_def)

lemma dollar_not_numChar: "\<not> isNumChar (CHR ''$'')"
  by (simp add: isNumChar_def isDigit_def)

lemma whiteSpace_shape:
  assumes "w \<in> set whiteSpace"
  shows "w \<noteq> []" "CHR ''$'' \<notin> set w" "\<not> isNumChar (hd w)"
  using assms by (auto simp: whiteSpace_def isNumChar_def isDigit_def)

lemma whiteSpaceAt_numChar: "isNumChar c \<Longrightarrow> whiteSpaceAt (c # r) = 0"
proof -
  assume c: "isNumChar c"
  have "find (\<lambda>w. prefix w (c # r)) whiteSpace = None"
  proof (rule ccontr)
    assume "find (\<lambda>w. prefix w (c # r)) whiteSpace \<noteq> None"
    then obtain w where "w \<in> set whiteSpace" "prefix w (c # r)"
      by (auto simp: find_None_iff)
    with whiteSpace_shape(1,3) [of w] have "\<not> isNumChar c"
      by (cases w) auto
    with c show False by simp
  qed
  then show ?thesis by (simp add: whiteSpaceAt_def)
qed

lemma skipSpace_numChar: "isNumChar c \<Longrightarrow> skipSpace (c # r) = c # r"
  using whiteSpaceAt_numChar [of c r] by (subst skipSpace.simps) simp

lemma whiteSpaceAt_dollar: "whiteSpaceAt (CHR ''$'' # r) = 0"
proof -
  have "find (\<lambda>w. prefix w (CHR ''$'' # r)) whiteSpace = None"
  proof (rule ccontr)
    assume "find (\<lambda>w. prefix w (CHR ''$'' # r)) whiteSpace \<noteq> None"
    then obtain w where "w \<in> set whiteSpace" "prefix w (CHR ''$'' # r)"
      by (auto simp: find_None_iff)
    with whiteSpace_shape(1,2) [of w] show False
      by (cases w) auto
  qed
  then show ?thesis by (simp add: whiteSpaceAt_def)
qed

lemma prefix_before:
  assumes "b \<notin> set w"
  shows "prefix w (cs @ b # r) \<longleftrightarrow> prefix w cs"
proof
  assume "prefix w (cs @ b # r)"
  then have "prefix w cs \<or> (\<exists>us. w = cs @ us \<and> prefix us (b # r))"
    by (simp add: prefix_append)
  then consider "prefix w cs" | us where "w = cs @ us" "prefix us (b # r)" "us \<noteq> []"
    by (metis append_Nil2 prefix_order.order_refl)
  then show "prefix w cs"
  proof cases
    case 1
    then show ?thesis .
  next
    case 2
    then have "b \<in> set w" by (cases us) auto
    with assms show ?thesis by simp
  qed
next
  assume "prefix w cs"
  then show "prefix w (cs @ b # r)" by (simp add: prefix_prefix)
qed

lemma whiteSpaceAt_before_dollar: "whiteSpaceAt (cs @ CHR ''$'' # r) = whiteSpaceAt cs"
proof -
  have "find (\<lambda>w. prefix w (cs @ CHR ''$'' # r)) whiteSpace = find (\<lambda>w. prefix w cs) whiteSpace"
    by (rule find_cong) (simp_all add: prefix_before whiteSpace_shape(2))
  then show ?thesis by (simp add: whiteSpaceAt_def)
qed

lemma whiteSpaceAt_le: "whiteSpaceAt s \<le> length s"
proof (cases "find (\<lambda>w. prefix w s) whiteSpace")
  case None
  then show ?thesis by (simp add: whiteSpaceAt_def)
next
  case (Some w)
  then have "prefix w s" by (auto simp: find_Some_iff)
  with Some show ?thesis by (simp add: whiteSpaceAt_def prefix_length_le)
qed

lemma skipSpace_before_dollar: "skipSpace (cs @ CHR ''$'' # r) = skipSpace cs @ CHR ''$'' # r"
proof (induction cs rule: skipSpace.induct)
  case (1 s)
  show ?case
  proof (cases "whiteSpaceAt s = 0")
    case True
    then have "whiteSpaceAt (s @ CHR ''$'' # r) = 0" by (simp add: whiteSpaceAt_before_dollar)
    then have "skipSpace (s @ CHR ''$'' # r) = s @ CHR ''$'' # r"
      by (subst skipSpace.simps) simp
    moreover from True have "skipSpace s = s" by (subst skipSpace.simps) simp
    ultimately show ?thesis by simp
  next
    case False
    let ?n = "whiteSpaceAt s"
    have "skipSpace (s @ CHR ''$'' # r) = skipSpace (drop ?n (s @ CHR ''$'' # r))"
      using False by (subst skipSpace.simps) (simp add: whiteSpaceAt_before_dollar)
    also have "drop ?n (s @ CHR ''$'' # r) = drop ?n s @ CHR ''$'' # r"
      using whiteSpaceAt_le [of s] by simp
    also have "skipSpace (drop ?n s @ CHR ''$'' # r) = skipSpace (drop ?n s) @ CHR ''$'' # r"
      using False by (rule "1.IH")
    also have "skipSpace (drop ?n s) = skipSpace s"
      using False by (subst (2) skipSpace.simps) simp
    finally show ?thesis .
  qed
qed

lemma isWhite_Nil: "isWhite []"
  unfolding isWhite_def by (rule exI [of _ "[]"]) simp

lemma isWhite_Cons: "w \<in> set whiteSpace \<Longrightarrow> isWhite v \<Longrightarrow> isWhite (w @ v)"
  unfolding isWhite_def
proof -
  assume w: "w \<in> set whiteSpace" and "\<exists>ws. set ws \<subseteq> set whiteSpace \<and> v = concat ws"
  then obtain ws where "set ws \<subseteq> set whiteSpace" "v = concat ws" by blast
  with w have "set (w # ws) \<subseteq> set whiteSpace \<and> w @ v = concat (w # ws)" by simp
  then show "\<exists>ws. set ws \<subseteq> set whiteSpace \<and> w @ v = concat ws" by blast
qed

lemma skipSpace_split: "\<exists>w. isWhite w \<and> s = w @ skipSpace s"
proof (induction s rule: skipSpace.induct)
  case (1 s)
  show ?case
  proof (cases "whiteSpaceAt s = 0")
    case True
    then have "skipSpace s = s" by (subst skipSpace.simps) simp
    with isWhite_Nil show ?thesis by (intro exI [of _ "[]"]) simp
  next
    case False
    let ?n = "whiteSpaceAt s"
    from False obtain w where f: "find (\<lambda>w. prefix w s) whiteSpace = Some w"
      by (auto simp: whiteSpaceAt_def split: option.splits)
    then have w: "w \<in> set whiteSpace" "prefix w s"
      by (auto simp: find_Some_iff)
    from f have n: "?n = length w" by (simp add: whiteSpaceAt_def)
    from w(2) n have s: "s = w @ drop ?n s" by (auto simp: prefix_def)
    from "1.IH" [OF False] obtain v where v: "isWhite v" "drop ?n s = v @ skipSpace (drop ?n s)"
      by blast
    have "skipSpace (drop ?n s) = skipSpace s"
      using False by (subst (2) skipSpace.simps) simp
    with v s have "s = (w @ v) @ skipSpace s" by (metis append.assoc)
    with isWhite_Cons [OF w(1) v(1)] show ?thesis by blast
  qed
qed

lemma fracPart_amount:
  assumes "\<forall>c\<in>set fd. isDigit c" "length fd \<le> 2" "endsNumeral fd post"
  shows "fracPart ((if fd = [] then [] else CHR ''.'' # fd) @ post) = (if fd = [] then [] else CHR ''.'' # fd)"
proof -
  consider "fd = []" | d where "fd = [d]" | d e where "fd = [d, e]"
    using assms(2) by (cases fd; cases "tl fd"; cases "tl (tl fd)") auto
  then show ?thesis
  proof cases
    case 1
    with assms(3) show ?thesis
      by (auto simp: fracPart_def endsNumeral_def split: list.splits)
  next
    case 2
    with assms(1,3) show ?thesis
      by (auto simp: fracPart_def endsNumeral_def split: list.splits)
  next
    case 3
    with assms(1) show ?thesis
      by (auto simp: fracPart_def split: list.splits)
  qed
qed

lemma numeralAt_amount:
  assumes "ip \<noteq> []" "\<forall>c\<in>set ip. isNumChar c" "\<forall>c\<in>set fd. isDigit c" "length fd \<le> 2"
    "endsNumeral fd post"
  shows "numeralAt (amountNumeral ip fd @ post) = Some (amountNumeral ip fd)"
proof -
  let ?f = "if fd = [] then [] else CHR ''.'' # fd"
  have stop: "?f @ post = [] \<or> \<not> isNumChar (hd (?f @ post))"
    using assms(5) by (cases post) (auto simp: endsNumeral_def dot_not_numChar)
  have tw: "takeWhile isNumChar (ip @ ?f @ post) = ip"
    using assms(2) stop by (cases "?f @ post") (simp_all add: takeWhile_append2)
  have dw: "dropWhile isNumChar (ip @ ?f @ post) = ?f @ post"
    using assms(2) stop by (cases "?f @ post") (simp_all add: dropWhile_append2)
  have "numeralAt (ip @ ?f @ post) = Some (ip @ fracPart (?f @ post))"
    unfolding numeralAt_def Let_def tw dw using assms(1) by simp
  also have "fracPart (?f @ post) = ?f"
    using assms(3,4,5) by (rule fracPart_amount)
  finally show ?thesis by (simp add: amountNumeral_def)
qed

lemma usdMatch_at_dollar:
  assumes "numeralAt r = Some n" "r \<noteq> []" "isNumChar (hd r)"
  shows "usdMatch (CHR ''$'' # r) = Some n"
proof -
  from assms(2,3) have "skipSpace r = r"
    by (cases r) (auto simp: skipSpace_numChar)
  with assms(1) show ?thesis by simp
qed

lemma dollarThen_Cons: "dollarThen P cs \<Longrightarrow> dollarThen P (c # cs)"
proof -
  assume "dollarThen P cs"
  then obtain pre w d post where
    h: "cs = pre @ CHR ''$'' # w @ d # post" "isWhite w" "P d"
    unfolding dollarThen_def by blast
  then have "c # cs = (c # pre) @ CHR ''$'' # w @ d # post" by simp
  with h(2,3) show ?thesis unfolding dollarThen_def by blast
qed

lemma dollarThen_here:
  assumes "skipSpace cs = d # post" "P d"
  shows "dollarThen P (CHR ''$'' # cs)"
proof -
  from skipSpace_split [of cs] obtain w where "isWhite w" "cs = w @ skipSpace cs" by blast
  with assms have "CHR ''$'' # cs = [] @ CHR ''$'' # w @ d # post" "isWhite w" "P d" by simp_all
  then show ?thesis unfolding dollarThen_def by blast
qed

lemma numeralAt_Some_head:
  "numeralAt s = Some n \<Longrightarrow> \<exists>d post. s = d # post \<and> isNumChar d"
  by (cases s) (auto simp: numeralAt_def Let_def split: if_splits)

lemma numeralAt_not_numChar: "\<not> isNumChar d \<Longrightarrow> numeralAt (d # post) = None"
  by (simp add: numeralAt_def)

lemma usdMatch_Some_dollarThen: "usdMatch t = Some n \<Longrightarrow> dollarThen isNumChar t"
proof (induction t)
  case Nil
  then show ?case by simp
next
  case (Cons c cs)
  show ?case
  proof (cases "c = CHR ''$'' \<and> numeralAt (skipSpace cs) \<noteq> None")
    case True
    then obtain d post where "skipSpace cs = d # post" "isNumChar d"
      using numeralAt_Some_head by blast
    with True show ?thesis by (simp add: dollarThen_here)
  next
    case False
    with Cons.prems have "usdMatch cs = Some n" by (auto split: if_splits option.splits)
    with Cons.IH show ?thesis by (simp add: dollarThen_Cons)
  qed
qed

lemma usdMatch_None: "\<not> dollarThen isNumChar t \<Longrightarrow> usdMatch t = None"
  using usdMatch_Some_dollarThen by (cases "usdMatch t") auto

lemma usdMatch_skip_prefix:
  "\<not> dollarThen isNumChar pre \<Longrightarrow> usdMatch (pre @ CHR ''$'' # r) = usdMatch (CHR ''$'' # r)"
proof (induction pre)
  case Nil
  show ?case by simp
next
  case (Cons c cs)
  from Cons.prems have tail: "\<not> dollarThen isNumChar cs"
    using dollarThen_Cons by blast
  show ?case
  proof (cases "c = CHR ''$''")
    case False
    with Cons.IH tail show ?thesis by simp
  next
    case True
    have "numeralAt (skipSpace (cs @ CHR ''$'' # r)) = None"
    proof (cases "skipSpace cs")
      case Nil
      then show ?thesis
        by (simp add: skipSpace_before_dollar numeralAt_not_numChar dollar_not_numChar)
    next
      case (Cons d post)
      have "\<not> isNumChar d"
      proof
        assume "isNumChar d"
        with Cons have "dollarThen isNumChar (CHR ''$'' # cs)" by (rule dollarThen_here)
        with True Cons.prems show False by simp
      qed
      with Cons show ?thesis by (simp add: skipSpace_before_dollar numeralAt_not_numChar)
    qed
    with True Cons.IH tail show ?thesis by simp
  qed
qed

lemma fracPart_shape:
  "\<exists>r. s = fracPart s @ r \<and> (fracPart s = [] \<or> isDigit (last (fracPart s)))"
  by (auto simp: fracPart_def split: list.splits)

lemma numeralAt_shape:
  assumes "numeralAt s = Some n"
  shows "\<exists>r. s = n @ r \<and> n \<noteq> [] \<and> isNumChar (last n)"
proof -
  let ?ip = "takeWhile isNumChar s" and ?rest = "dropWhile isNumChar s"
  from assms have ip: "?ip \<noteq> []" and n: "n = ?ip @ fracPart ?rest"
    by (auto simp: numeralAt_def Let_def split: if_splits)
  obtain r where r: "?rest = fracPart ?rest @ r"
    and f: "fracPart ?rest = [] \<or> isDigit (last (fracPart ?rest))"
    using fracPart_shape by blast
  have "s = ?ip @ ?rest" by simp
  with r n have s: "s = n @ r" by (metis append.assoc)
  have "last ?ip \<in> set ?ip" using ip by simp
  then have "isNumChar (last ?ip)" by (auto dest: set_takeWhileD)
  with f n ip have "isNumChar (last n)"
    by (cases "fracPart ?rest = []") (auto simp: isDigit_isNumChar)
  with s n ip show ?thesis by blast
qed

lemma usd_prefix_split:
  assumes "prefix ''usd'' (toLowerCase r)"
  shows "\<exists>u post. r = u @ post \<and> toLowerCase u = ''usd''"
proof -
  from assms obtain z where z: "toLowerCase r = ''usd'' @ z" by (auto simp: prefix_def)
  have "toLowerCase (take 3 r) = take 3 (toLowerCase r)"
    by (simp add: toLowerCase_def take_map)
  with z have "toLowerCase (take 3 r) = ''usd''" by simp
  moreover have "r = take 3 r @ drop 3 r" by simp
  ultimately show ?thesis by blast
qed

lemma thenUSD_Cons: "thenUSD P cs \<Longrightarrow> thenUSD P (c # cs)"
proof -
  assume "thenUSD P cs"
  then obtain pre d w v post where
    h: "cs = pre @ d # w @ v @ post" "P d" "isWhite w" "toLowerCase v = ''usd''"
    unfolding thenUSD_def by blast
  then have "c # cs = (c # pre) @ d # w @ v @ post" by simp
  with h(2,3,4) show ?thesis unfolding thenUSD_def by blast
qed

lemma usdMatch2_Some_thenUSD: "usdMatch2 t = Some n \<Longrightarrow> thenUSD isNumChar t"
proof (induction t)
  case Nil
  then show ?case by simp
next
  case (Cons c cs)
  let ?s = "c # cs"
  show ?case
  proof (cases "\<exists>m. numeralAt ?s = Some m \<and>
      prefix ''usd'' (toLowerCase (skipSpace (drop (length m) ?s)))")
    case True
    then obtain m where m: "numeralAt ?s = Some m"
      and u: "prefix ''usd'' (toLowerCase (skipSpace (drop (length m) ?s)))" by blast
    from numeralAt_shape [OF m] obtain r where r: "?s = m @ r" "m \<noteq> []" "isNumChar (last m)"
      by blast
    then have "drop (length m) ?s = r" by (metis append_eq_conv_conj)
    with u obtain v post where v: "skipSpace r = v @ post" "toLowerCase v = ''usd''"
      using usd_prefix_split by metis
    from skipSpace_split [of r] obtain w where w: "isWhite w" "r = w @ skipSpace r" by blast
    with v have "r = w @ v @ post" by simp
    moreover have "m = butlast m @ [last m]" using r(2) by simp
    ultimately have "?s = butlast m @ last m # w @ v @ post"
      using r(1) by (metis append.assoc append_Cons append_Nil)
    with r(3) w(1) v(2) show ?thesis unfolding thenUSD_def by blast
  next
    case False
    with Cons.prems have "usdMatch2 cs = Some n"
      by (auto split: option.splits if_splits)
    with Cons.IH show ?thesis by (simp add: thenUSD_Cons)
  qed
qed

lemma usdMatch2_None: "\<not> thenUSD isNumChar t \<Longrightarrow> usdMatch2 t = None"
  using usdMatch2_Some_thenUSD by (cases "usdMatch2 t") auto

lemma dollarThen_numChar:
  "dollarThen isNumChar t \<longleftrightarrow> dollarThen isDigit t \<or> dollarThen isComma t"
  unfolding dollarThen_def isNumChar_cases by blast

lemma thenUSD_numChar:
  "thenUSD isNumChar t \<longleftrightarrow> thenUSD isDigit t \<or> thenUSD isComma t"
  unfolding thenUSD_def isNumChar_cases by blast

lemma dollarThen_dollar: "dollarThen P t \<Longrightarrow> CHR ''$'' \<in> set t"
  by (auto simp: dollarThen_def)

lemma thenUSD_char: "thenUSD P t \<Longrightarrow> \<exists>c\<in>set t. P c"
  by (auto simp: thenUSD_def)

lemma removeCommas_numChars:
  "\<forall>c\<in>set ip. isNumChar c \<Longrightarrow> \<forall>c\<in>set (removeCommas ip). isDigit c"
  by (auto simp: removeCommas_def isNumChar_def)

lemma removeCommas_digits: "\<forall>c\<in>set fd. isDigit c \<Longrightarrow> removeCommas fd = fd"
  by (induction fd) (auto simp: removeCommas_def isDigit_def)

lemma removeCommas_amount:
  assumes "\<forall>c\<in>set fd. isDigit c"
  shows "removeCommas (amountNumeral ip fd) = amountNumeral (removeCommas ip) fd"
  using removeCommas_digits [OF assms]
  by (simp add: amountNumeral_def removeCommas_def)

lemma parseFloat_amount:
  assumes "\<forall>c\<in>set ds. isDigit c" "\<forall>c\<in>set fd. isDigit c" "ds \<noteq> []"
  shows "parseFloat (amountNumeral ds fd) =
           Some (of_nat (decimalValue ds) + of_nat (decimalValue fd) / 10 ^ length fd)"
proof -
  let ?f = "if fd = [] then [] else CHR ''.'' # fd"
  have tw: "takeWhile isDigit (ds @ ?f) = ds"
    using assms(1) by (simp add: dot_not_numChar)
  have dw: "dropWhile isDigit (ds @ ?f) = ?f"
    using assms(1) by (simp add: dot_not_numChar)
  have fp: "(case ?f of [] \<Rightarrow> [] | c # r' \<Rightarrow> if c = CHR ''.'' then takeWhile isDigit r' else []) = fd"
    using assms(2) by (simp add: takeWhile_eq_all_conv)
  show ?thesis
    unfolding parseFloat_def amountNumeral_def Let_def tw dw fp
    using assms(3) by simp
qed


text \<open>
  Claim C5, amended. Let the amount be written with digits, commas if any and at most two
  decimals, and let the text be \<open>pre\<close>, a dollar sign, that numeral and \<open>post\<close>, where
  in \<open>pre\<close> no dollar sign is followed by a digit or a comma, white space aside (the
  first match decides), and \<open>post\<close> does not continue the numeral. Then both versions
  return the low tier when the amount is at most 125 and the high tier when it is above.
  A text in which no dollar sign is followed by a digit or a comma, and no digit or comma
  by the letters USD, white space aside, gets \<^verbatim>\<open>Unknown\<close>. Nothing is said of a comma
  that stands alone where the numeral should be.
\<close>

theorem C5_detectValueTier:
  assumes amount: "\<exists>c\<in>set ip. isDigit c" "\<forall>c\<in>set ip. isNumChar c"
      "\<forall>c\<in>set fd. isDigit c" "length fd \<le> 2"
    and first: "\<not> dollarThen isDigit pre" "\<not> dollarThen isComma pre"
    and ends: "endsNumeral fd post"
    and plain: "\<not> dollarThen isDigit t" "\<not> dollarThen isComma t"
      "\<not> thenUSD isDigit t" "\<not> thenUSD isComma t"
  shows "detectValueTier (pre @ ''$'' @ amountNumeral ip fd @ post)
           = (if amountValue ip fd \<le> 125 then tier_low else tier_high) \<and>
         detectValueTier_enh (pre @ ''$'' @ amountNumeral ip fd @ post)
           = (if amountValue ip fd \<le> 125 then tier_low else tier_high) \<and>
         detectValueTier t = tier_unknown \<and>
         detectValueTier_enh t = tier_unknown"
proof -
  let ?n = "amountNumeral ip fd"
  from amount(1) have ip: "ip \<noteq> []" by auto
  have na: "numeralAt (?n @ post) = Some ?n"
    using ip amount(2,3,4) ends by (rule numeralAt_amount)
  have hd: "?n @ post \<noteq> []" "isNumChar (hd (?n @ post))"
    using ip amount(2) by (cases ip; simp add: amountNumeral_def)+
  from first have "\<not> dollarThen isNumChar pre" by (simp add: dollarThen_numChar)
  then have "usdMatch (pre @ CHR ''$'' # ?n @ post) = usdMatch (CHR ''$'' # ?n @ post)"
    by (rule usdMatch_skip_prefix)
  also have "\<dots> = Some ?n"
    using na hd by (rule usdMatch_at_dollar)
  finally have m: "usdMatch (pre @ CHR ''$'' # ?n @ post) = Some ?n" .
  have ne: "removeCommas ip \<noteq> []"
  proof -
    from amount(1) obtain c where c: "c \<in> set ip" "isDigit c" by blast
    from c(2) have "c \<noteq> CHR '',''" by (auto simp: isDigit_def)
    with c(1) have "c \<in> set (removeCommas ip)" by (simp add: removeCommas_def)
    then show ?thesis by auto
  qed
  have "parseFloat (removeCommas ?n) = parseFloat (amountNumeral (removeCommas ip) fd)"
    using amount(3) by (simp add: removeCommas_amount)
  also have "\<dots> = Some (amountValue ip fd)"
    unfolding amountValue_def
    using removeCommas_numChars [OF amount(2)] amount(3) ne by (rule parseFloat_amount)
  finally have p: "parseFloat (removeCommas ?n) = Some (amountValue ip fd)" .
  have a: "detectValueTier (pre @ ''$'' @ ?n @ post)
      = (if amountValue ip fd \<le> 125 then tier_low else tier_high)"
    by (simp add: detectValueTier_def m p)
  have b: "detectValueTier_enh (pre @ ''$'' @ ?n @ post)
      = (if amountValue ip fd \<le> 125 then tier_low else tier_high)"
    by (simp add: detectValueTier_enh_def m p)
  from plain have n1: "usdMatch t = None" and n2: "usdMatch2 t = None"
    by (simp_all add: usdMatch_None usdMatch2_None dollarThen_numChar thenUSD_numChar)
  have c: "detectValueTier t = tier_unknown"
    using n1 n2 by (simp add: detectValueTier_def)
  have d: "detectValueTier_enh t = tier_unknown"
    using n1 by (simp add: detectValueTier_enh_def)
  from a b c d show ?thesis by blast
qed

text \<open>
  Claim C5, as stated, fails in three ways. Two texts hold no digit, hence no amount, and
  a comma after the dollar sign or before USD is read as a numeral without a value: the
  answer is the high tier, not \<^verbatim>\<open>Unknown\<close>. The amount 100 follows the amount 200 in a
  text, and the first one decides: the high tier. The amount 125.001 is read to two
  decimals: the low tier.
\<close>

theorem C5_detectValueTier_counterexample:
  "\<not> list_ex isDigit ''Pay in $, not in euros.'' \<and>
   detectValueTier ''Pay in $, not in euros.'' = tier_high \<and>
   detectValueTier_enh ''Pay in $, not in euros.'' = tier_high \<and>
   \<not> list_ex isDigit ''We accept EUR, USD or GBP.'' \<and>
   detectValueTier ''We accept EUR, USD or GBP.'' = tier_high \<and>
   detectValueTier ''Paid $200, then refunded $100.'' = tier_high \<and>
   detectValueTier_enh ''Paid $200, then refunded $100.'' = tier_high \<and>
   detectValueTier ''Total $125.001'' = tier_low \<and>
   detectValueTier_enh ''Total $125.001'' = tier_low \<and>
   tier_high \<noteq> tier_unknown \<and> tier_low \<noteq> tier_high"
  by code_simp

lemma no_dollar_no_numChar:
  assumes "CHR ''$'' \<notin> set t" "\<forall>c\<in>set t. \<not> isNumChar c"
  shows "\<not> dollarThen P t" "\<not> thenUSD isDigit t" "\<not> thenUSD isComma t"
  using assms dollarThen_dollar [of P t] thenUSD_char [of isDigit t] thenUSD_char [of isComma t]
  by (auto simp: isNumChar_cases)

text \<open>
  Claim C5, amended, at the amounts 125.00 and 125.01, and at a text without an amount.
\<close>

theorem C5_detectValueTier_witness:
  "detectValueTier ''Refund of $125.00 was sent.'' = tier_low \<and>
   detectValueTier_enh ''Refund of $125.00 was sent.'' = tier_low \<and>
   detectValueTier ''Refund of $125.01 was sent.'' = tier_high \<and>
   detectValueTier_enh ''Refund of $125.01 was sent.'' = tier_high \<and>
   detectValueTier ''no amount here'' = tier_unknown \<and>
   detectValueTier_enh ''no amount here'' = tier_unknown"
proof -
  have 1: "\<exists>c\<in>set ''125''. isDigit c" by code_simp
  have 2: "\<forall>c\<in>set ''125''. isNumChar c" by code_simp
  have 3: "\<forall>c\<in>set ''00''. isDigit c" "\<forall>c\<in>set ''01''. isDigit c" by code_simp+
  have 4: "length ''00'' \<le> 2" "length ''01'' \<le> 2" by simp_all
  have 5: "\<not> dollarThen isDigit ''Refund of ''" "\<not> dollarThen isComma ''Refund of ''"
    by (rule no_dollar_no_numChar(1); code_simp)+
  have 6: "endsNumeral ''00'' '' was sent.''" "endsNumeral ''01'' '' was sent.''" by code_simp+
  have 7: "\<not> dollarThen isDigit ''no amount here''" "\<not> dollarThen isComma ''no amount here''"
    by (rule no_dollar_no_numChar(1); code_simp)+
  have 8: "\<not> thenUSD isDigit ''no amount here''"
    by (rule no_dollar_no_numChar(2); code_simp)
  have 9: "\<not> thenUSD isComma ''no amount here''"
    by (rule no_dollar_no_numChar(3); code_simp)
  have v: "amountValue ''125'' ''00'' \<le> 125" "\<not> amountValue ''125'' ''01'' \<le> 125"
    by code_simp+
  have n: "amountNumeral ''125'' ''00'' = ''125.00''" "amountNumeral ''125'' ''01'' = ''125.01''"
    by (simp_all add: amountNumeral_def)
  show ?thesis
    using C5_detectValueTier [OF 1 2 3(1) 4(1) 5 6(1) 7 8 9]
      C5_detectValueTier [OF 1 2 3(2) 4(2) 5 6(2) 7 8 9] v n
    by simp
qed

subsection \<open>The scenario matcher\<close>

lemma bestStep_keep: "rowScore lc text row \<le> snd acc \<Longrightarrow> bestStep lc text acc row = acc"
  by (simp add: bestStep_def Let_def)

lemma bestStep_take:
  "snd acc < rowScore lc text row \<Longrightarrow> bestStep lc text acc row = (Some row, rowScore lc text row)"
  by (simp add: bestStep_def Let_def)

lemma foldl_bestStep_keep:
  "\<forall>x\<in>set rows. rowScore lc text x \<le> snd acc \<Longrightarrow> foldl (bestStep lc text) acc rows = acc"
  by (induction rows arbitrary: acc) (simp_all add: bestStep_keep)

lemma foldl_bestStep_below:
  "\<forall>x\<in>set rows. rowScore lc text x < m \<Longrightarrow> snd acc < m
     \<Longrightarrow> snd (foldl (bestStep lc text) acc rows) < m"
proof (induction rows arbitrary: acc)
  case Nil
  then show ?case by simp
next
  case (Cons x xs)
  have "snd (bestStep lc text acc x) < m"
    using Cons.prems by (simp add: bestStep_def Let_def)
  with Cons show ?case by simp
qed

lemma bestRow_first_best:
  assumes "0 < rowScore lc text r"
    and "\<forall>x\<in>set pre. rowScore lc text x < rowScore lc text r"
    and "\<forall>x\<in>set post. rowScore lc text x \<le> rowScore lc text r"
  shows "bestRow lc text (pre @ r # post) = Some r"
proof -
  let ?acc = "foldl (bestStep lc text) (None, 0) pre"
  have "snd ?acc < rowScore lc text r"
    using assms(2,1) by (intro foldl_bestStep_below) simp_all
  then have "bestStep lc text ?acc r = (Some r, rowScore lc text r)"
    by (rule bestStep_take)
  moreover have
    "foldl (bestStep lc text) (Some r, rowScore lc text r) post = (Some r, rowScore lc text r)"
    using assms(3) by (intro foldl_bestStep_keep) simp
  ultimately show ?thesis by (simp add: bestRow_def)
qed

lemma bestRow_all_zero:
  assumes "\<forall>x\<in>set grid. rowScore lc text x = 0"
  shows "bestRow lc text grid = None"
proof -
  have "foldl (bestStep lc text) (None, 0) grid = (None, 0)"
    using assms by (intro foldl_bestStep_keep) simp
  then show ?thesis by (simp add: bestRow_def)
qed

text \<open>
  Claim C7. Whatever the folding \<open>lc\<close>: when a row scores above zero, every row before
  it scores strictly less and no row after it scores more, \<^verbatim>\<open>findBestMatch\<close> returns
  that row, in both versions: of the rows that attain the best score the earliest is
  returned. A turn of the loop keeps the current best row unless the new score is
  strictly higher.
\<close>

theorem C7_first_best_row_wins:
  "(0 < rowScore lc (haystack lc inp) r \<and>
    (\<forall>x\<in>set pre. rowScore lc (haystack lc inp) x < rowScore lc (haystack lc inp) r) \<and>
    (\<forall>x\<in>set post. rowScore lc (haystack lc inp) x \<le> rowScore lc (haystack lc inp) r)
      \<longrightarrow> findBestMatch lc (pre @ r # post) inp = Some r) \<and>
   (0 < rowScore lc (haystack_enh lc inpe) r \<and>
    (\<forall>x\<in>set pre. rowScore lc (haystack_enh lc inpe) x < rowScore lc (haystack_enh lc inpe) r) \<and>
    (\<forall>x\<in>set post. rowScore lc (haystack_enh lc inpe) x \<le> rowScore lc (haystack_enh lc inpe) r)
      \<longrightarrow> findBestMatch_enh lc (pre @ r # post) inpe = Some r) \<and>
   (rowScore lc text row \<le> snd acc \<longrightarrow> bestStep lc text acc row = acc) \<and>
   (snd acc < rowScore lc text row
      \<longrightarrow> bestStep lc text acc row = (Some row, rowScore lc text row))"
  by (simp add: findBestMatch_def findBestMatch_enh_def bestRow_first_best bestStep_keep bestStep_take)

text \<open>
  Claim C7 on a grid of three rows that score 5, 10 and 10 on an ASCII text, which
  \<open>toLowerCase\<close> folds as JavaScript does: the second row is returned.
\<close>

theorem C7_first_best_row_wins_witness:
  "findBestMatch toLowerCase ([row_late] @ row_partial # [row_goodwill]) sample_inputs
     = Some row_partial \<and>
   findBestMatch_enh toLowerCase ([row_late] @ row_partial # [row_goodwill]) sample_inputs_enh
     = Some row_partial \<and>
   rowScore toLowerCase (haystack toLowerCase sample_inputs) row_goodwill
     = rowScore toLowerCase (haystack toLowerCase sample_inputs) row_partial \<and>
   bestStep toLowerCase (haystack toLowerCase sample_inputs) (Some row_partial, 10) row_goodwill
     = (Some row_partial, 10) \<and>
   bestStep toLowerCase (haystack toLowerCase sample_inputs) (Some row_late, 5) row_partial
     = (Some row_partial, 10)"
proof -
  have s: "rowScore toLowerCase (haystack toLowerCase sample_inputs) row_late = 5"
    "rowScore toLowerCase (haystack toLowerCase sample_inputs) row_partial = 10"
    "rowScore toLowerCase (haystack toLowerCase sample_inputs) row_goodwill = 10"
    by code_simp+
  have e: "rowScore toLowerCase (haystack_enh toLowerCase sample_inputs_enh) row_late = 5"
    "rowScore toLowerCase (haystack_enh toLowerCase sample_inputs_enh) row_partial = 10"
    "rowScore toLowerCase (haystack_enh toLowerCase sample_inputs_enh) row_goodwill = 10"
    by code_simp+
  show ?thesis
    using C7_first_best_row_wins [of toLowerCase sample_inputs row_partial "[row_late]"
        "[row_goodwill]" sample_inputs_enh "haystack toLowerCase sample_inputs" row_goodwill
        "(Some row_partial, 10)"]
      C7_first_best_row_wins [of toLowerCase sample_inputs row_partial "[row_late]"
        "[row_goodwill]" sample_inputs_enh "haystack toLowerCase sample_inputs" row_partial
        "(Some row_late, 5)"]
    by (simp add: s e)
qed

text \<open>
  Claim C2, amended. Whatever the folding \<open>lc\<close>: when every row scores zero, the
  application script returns the first row whose \<^verbatim>\<open>L1\<close> or \<^verbatim>\<open>L2\<close> contains "unknown",
  "other" or "default" in any case, or none, whatever the conversation holds. The
  guide's version returns none when \<^verbatim>\<open>conversationCount\<close> is not 0, and otherwise the
  first row whose \<^verbatim>\<open>L1\<close> contains "unknown" or "default", or none.
\<close>

theorem C2_zero_score_fallback:
  assumes "\<forall>x\<in>set grid. rowScore lc (haystack lc inp) x = 0"
    and "\<forall>x\<in>set grid. rowScore lc (haystack_enh lc inpe) x = 0"
  shows "findBestMatch lc grid inp =
           find (\<lambda>r. (test_i ''unknown'' (orEmpty (L1 r)) \<or> test_i ''other'' (orEmpty (L1 r))
                        \<or> test_i ''default'' (orEmpty (L1 r))) \<or>
                      (test_i ''unknown'' (orEmpty (L2 r)) \<or> test_i ''other'' (orEmpty (L2 r))
                        \<or> test_i ''default'' (orEmpty (L2 r)))) grid \<and>
         findBestMatch_enh lc grid inpe =
           (if conversationCount inpe = 0
            then find (\<lambda>r. test_i ''unknown'' (orEmpty (L1 r)) \<or> test_i ''default'' (orEmpty (L1 r))) grid
            else None)"
  using bestRow_all_zero [OF assms(1)] bestRow_all_zero [OF assms(2)]
  by (simp add: findBestMatch_def findBestMatch_enh_def testFallback_def split: option.splits)

text \<open>
  Claim C2, as stated, fails in each version. Every row scores zero in both runs. The
  application script returns the row "Other" although the latest comment is not empty.
  The guide's version, with no conversation, returns none although \<^verbatim>\<open>L1\<close> of the row
  contains "other".
\<close>

theorem C2_zero_score_fallback_counterexample:
  "rowScore toLowerCase (haystack toLowerCase quiet_inputs) row_other = 0 \<and>
   latestComment quiet_inputs \<noteq> [] \<and>
   map_option L1 (findBestMatch toLowerCase [row_other] quiet_inputs) = Some (Some ''Other'') \<and>
   rowScore toLowerCase (haystack_enh toLowerCase quiet_inputs_enh) row_other = 0 \<and>
   conversationCount quiet_inputs_enh = 0 \<and>
   test_i ''other'' (orEmpty (L1 row_other)) \<and>
   map_option L1 (findBestMatch_enh toLowerCase [row_other] quiet_inputs_enh) = None"
  by code_simp

text \<open>
  Claim C2, amended, on a grid of three rows, "Other", "Default case" and "Unknown", none
  of which scores: the application script returns the first, the guide's version the
  second when there is no conversation and none when there are three messages.
\<close>

theorem C2_zero_score_fallback_witness:
  "findBestMatch toLowerCase [row_other, row_default, row_unknown] quiet_inputs = Some row_other \<and>
   findBestMatch_enh toLowerCase [row_other, row_default, row_unknown] quiet_inputs_enh
     = Some row_default \<and>
   findBestMatch_enh toLowerCase [row_other, row_default, row_unknown]
     (quiet_inputs_enh\<lparr>conversationCount := 3\<rparr>) = None"
proof -
  let ?grid = "[row_other, row_default, row_unknown]"
  have z: "rowScore toLowerCase (haystack toLowerCase quiet_inputs) row_other = 0"
    "rowScore toLowerCase (haystack toLowerCase quiet_inputs) row_default = 0"
    "rowScore toLowerCase (haystack toLowerCase quiet_inputs) row_unknown = 0"
    "rowScore toLowerCase (haystack_enh toLowerCase quiet_inputs_enh) row_other = 0"
    "rowScore toLowerCase (haystack_enh toLowerCase quiet_inputs_enh) row_default = 0"
    "rowScore toLowerCase (haystack_enh toLowerCase quiet_inputs_enh) row_unknown = 0"
    by code_simp+
  have hq: "haystack_enh toLowerCase (quiet_inputs_enh\<lparr>conversationCount := 3\<rparr>)
      = haystack_enh toLowerCase quiet_inputs_enh"
    by (simp add: haystack_enh_def)
  have h1: "\<forall>x\<in>set ?grid. rowScore toLowerCase (haystack toLowerCase quiet_inputs) x = 0"
    by (simp add: z)
  have h2: "\<forall>x\<in>set ?grid. rowScore toLowerCase (haystack_enh toLowerCase quiet_inputs_enh) x = 0"
    by (simp add: z)
  have h3: "\<forall>x\<in>set ?grid. rowScore toLowerCase
      (haystack_enh toLowerCase (quiet_inputs_enh\<lparr>conversationCount := 3\<rparr>)) x = 0"
    by (simp add: z hq)
  have t: "test_i ''other'' (orEmpty (L1 row_other))"
    "\<not> test_i ''unknown'' (orEmpty (L1 row_other))"
    "\<not> test_i ''default'' (orEmpty (L1 row_other))"
    "test_i ''default'' (orEmpty (L1 row_default))" by code_simp+
  have c: "conversationCount quiet_inputs_enh = 0" by code_simp
  show ?thesis
    using C2_zero_score_fallback [OF h1 h2] C2_zero_score_fallback [OF h1 h3] t c by simp
qed

subsection \<open>The verdict\<close>

text \<open>
  Claim C1, as stated, fails in the application script: the row has no entry for column
  D, so the expected text is empty, and the verdict is plain \<^verbatim>\<open>Compliant\<close>. So it is
  for a whole run in which no row matches.
\<close>

theorem C1_compliance_category_counterexample:
  "expectedCellText (Some row_late) ''D'' = [] \<and>
   DSS_Compliance (buildOutputJSON ''2025-11-10T09:30:00.000Z'' sample_inputs (Some row_late) ''D''
     ''No refund was given.'') = ''Compliant'' \<and>
   map_option L1 (findBestMatch toLowerCase [] quiet_inputs) = None \<and>
   Ideal_Refund_Action (runAudit toLowerCase ''2025-11-10T09:30:00.000Z'' [] quiet_inputs) = [] \<and>
   DSS_Compliance (runAudit toLowerCase ''2025-11-10T09:30:00.000Z'' [] quiet_inputs)
     = ''Compliant''"
  by code_simp

lemma severityRank_empty: "severityRank [] = 3"
  by code_simp

lemma complianceFlag_cases:
  "complianceFlag (compareSeverity e a) =
     (if severityRank e \<le> severityRank a then ''Compliant'' else ''Non-Compliant'')"
  by (simp add: complianceFlag_def compareSeverity_def Let_def)

text \<open>
  Claim C1, amended. In the application script the category follows the severity
  comparison alone: \<^verbatim>\<open>Match\<close> and less severe give \<^verbatim>\<open>Compliant\<close>, more severe gives
  \<^verbatim>\<open>Non-Compliant\<close>; an empty expected text ranks 3, so the verdict is then
  \<^verbatim>\<open>Compliant\<close> exactly when the observed action ranks 3 or more. In the guide's version
  the category is \<^verbatim>\<open>Non-Compliant (DSS Rule Missing)\<close> when the expected text is empty or
  contains "no action", and \<^verbatim>\<open>Compliant\<close> otherwise, with no severity comparison.
\<close>

theorem C1_compliance_category:
  "(compareSeverity (expectedCellText row col) act = ''Match'' \<or>
    compareSeverity (expectedCellText row col) act = ''Less severe (under-refunded)''
      \<longrightarrow> DSS_Compliance (buildOutputJSON now inp row col act) = ''Compliant'') \<and>
   (compareSeverity (expectedCellText row col) act = ''More severe (over-refunded)''
      \<longrightarrow> DSS_Compliance (buildOutputJSON now inp row col act) = ''Non-Compliant'') \<and>
   (expectedCellText row col = []
      \<longrightarrow> DSS_Compliance (buildOutputJSON now inp row col act)
            = (if 3 \<le> severityRank act then ''Compliant'' else ''Non-Compliant'')) \<and>
   DSS_Compliance_enh (buildOutputJSON_enh now inpe row col act)
     = (if expectedCellText row col = []
           \<or> str_includes (toLowerCase (expectedCellText row col)) ''no action''
        then ''Non-Compliant (DSS Rule Missing)'' else ''Compliant'') \<and>
   (expectedCellText row col = []
      \<longrightarrow> DSS_Compliance_enh (buildOutputJSON_enh now inpe row col act)
            = ''Non-Compliant (DSS Rule Missing)'')"
proof -
  have a: "DSS_Compliance (buildOutputJSON now inp row col act)
      = complianceFlag (compareSeverity (expectedCellText row col) act)"
    by (simp add: buildOutputJSON_def Let_def)
  have b: "DSS_Compliance_enh (buildOutputJSON_enh now inpe row col act)
     = (if expectedCellText row col = []
           \<or> str_includes (toLowerCase (expectedCellText row col)) ''no action''
        then ''Non-Compliant (DSS Rule Missing)'' else ''Compliant'')"
    by (simp add: buildOutputJSON_enh_def Let_def)
  have c: "expectedCellText row col = [] \<longrightarrow>
      complianceFlag (compareSeverity (expectedCellText row col) act)
        = (if 3 \<le> severityRank act then ''Compliant'' else ''Non-Compliant'')"
    by (simp add: complianceFlag_cases severityRank_empty)
  have d: "compareSeverity (expectedCellText row col) act = ''Match'' \<or>
    compareSeverity (expectedCellText row col) act = ''Less severe (under-refunded)''
      \<longrightarrow> complianceFlag (compareSeverity (expectedCellText row col) act) = ''Compliant''"
    by (auto simp: complianceFlag_def)
  have e: "compareSeverity (expectedCellText row col) act = ''More severe (over-refunded)''
      \<longrightarrow> complianceFlag (compareSeverity (expectedCellText row col) act) = ''Non-Compliant''"
    by (simp add: complianceFlag_def)
  from a b c d e show ?thesis by simp
qed

text \<open>
  Claim C1, amended, on a row that prescribes a full wallet credit in column C and
  nothing in column D.
\<close>

theorem C1_compliance_category_witness:
  "DSS_Compliance (buildOutputJSON ''2025-11-10T09:30:00.000Z'' sample_inputs (Some row_late) ''C''
     ''No refund was given.'') = ''Compliant'' \<and>
   DSS_Compliance (buildOutputJSON ''2025-11-10T09:30:00.000Z'' sample_inputs (Some row_late) ''C''
     ''A full refund was sent.'') = ''Non-Compliant'' \<and>
   DSS_Compliance (buildOutputJSON ''2025-11-10T09:30:00.000Z'' sample_inputs (Some row_late) ''D''
     ''A full refund was sent.'') = ''Non-Compliant'' \<and>
   DSS_Compliance_enh (buildOutputJSON_enh ''2025-11-10T09:30:00.000Z'' sample_inputs_enh
     (Some row_late) ''D'' ''A full refund was sent.'') = ''Non-Compliant (DSS Rule Missing)''"
proof -
  have h1: "compareSeverity (expectedCellText (Some row_late) ''C'') ''No refund was given.''
      = ''Less severe (under-refunded)''" by code_simp
  have h2: "compareSeverity (expectedCellText (Some row_late) ''C'') ''A full refund was sent.''
      = ''More severe (over-refunded)''" by code_simp
  have h3: "expectedCellText (Some row_late) ''D'' = []" by code_simp
  have r: "\<not> 3 \<le> severityRank ''A full refund was sent.''" by code_simp
  show ?thesis
    using C1_compliance_category [of "Some row_late" "''C''" "''No refund was given.''"
        "''2025-11-10T09:30:00.000Z''" sample_inputs sample_inputs_enh]
      C1_compliance_category [of "Some row_late" "''C''" "''A full refund was sent.''"
        "''2025-11-10T09:30:00.000Z''" sample_inputs sample_inputs_enh]
      C1_compliance_category [of "Some row_late" "''D''" "''A full refund was sent.''"
        "''2025-11-10T09:30:00.000Z''" sample_inputs sample_inputs_enh]
      h1 h2 h3 r
    by simp
qed

subsection \<open>The audit run\<close>

text \<open>
  Claim C8, as stated, fails: the same inputs and the same grid, audited on two days,
  give two different verdicts.
\<close>

theorem C8_clock_counterexample:
  "runAudit toLowerCase ''2025-11-10T09:30:00.000Z'' [row_late, row_partial] sample_inputs
     \<noteq> runAudit toLowerCase ''2025-11-11T09:30:00.000Z'' [row_late, row_partial] sample_inputs \<and>
   runAudit_enh toLowerCase ''2025-11-10T09:30:00.000Z'' [row_late, row_partial] sample_inputs_enh
     \<noteq> runAudit_enh toLowerCase ''2025-11-11T09:30:00.000Z'' [row_late, row_partial] sample_inputs_enh"
proof -
  have "Week (runAudit toLowerCase ''2025-11-10T09:30:00.000Z'' [row_late, row_partial] sample_inputs)
      \<noteq> Week (runAudit toLowerCase ''2025-11-11T09:30:00.000Z'' [row_late, row_partial] sample_inputs)"
    by (simp add: runAudit_def buildOutputJSON_def Let_def)
  moreover have
    "Week_enh (runAudit_enh toLowerCase ''2025-11-10T09:30:00.000Z'' [row_late, row_partial] sample_inputs_enh)
      \<noteq> Week_enh (runAudit_enh toLowerCase ''2025-11-11T09:30:00.000Z'' [row_late, row_partial] sample_inputs_enh)"
    by (simp add: runAudit_enh_def buildOutputJSON_enh_def Let_def)
  ultimately show ?thesis by metis
qed

text \<open>
  Claim C8, amended. The verdict depends on the inputs, the grid and the clock; the clock
  reaches the field \<^verbatim>\<open>Week\<close> only, which is the date part of the time of the call. Two
  runs with the same inputs and grid on the same date return the same verdict.
\<close>

theorem C8_same_date_same_verdict:
  "runAudit lc iso1 grid inp = (runAudit lc iso2 grid inp)\<lparr>Week := take 10 iso1\<rparr> \<and>
   runAudit_enh lc iso1 grid inpe = (runAudit_enh lc iso2 grid inpe)\<lparr>Week_enh := take 10 iso1\<rparr> \<and>
   (take 10 iso1 = take 10 iso2 \<longrightarrow>
      runAudit lc iso1 grid inp = runAudit lc iso2 grid inp \<and>
      runAudit_enh lc iso1 grid inpe = runAudit_enh lc iso2 grid inpe)"
  by (simp add: runAudit_def runAudit_enh_def buildOutputJSON_def buildOutputJSON_enh_def Let_def)

text \<open>
  Claim C8, amended, at two times of the same day.
\<close>

theorem C8_same_date_same_verdict_witness:
  "runAudit toLowerCase ''2025-11-10T09:30:00.000Z'' [row_late, row_partial] sample_inputs
     = runAudit toLowerCase ''2025-11-10T17:45:12.250Z'' [row_late, row_partial] sample_inputs \<and>
   runAudit_enh toLowerCase ''2025-11-10T09:30:00.000Z'' [row_late, row_partial] sample_inputs_enh
     = runAudit_enh toLowerCase ''2025-11-10T17:45:12.250Z'' [row_late, row_partial] sample_inputs_enh"
proof -
  have h: "take 10 ''2025-11-10T09:30:00.000Z'' = take 10 ''2025-11-10T17:45:12.250Z''"
    by simp
  show ?thesis
    using C8_same_date_same_verdict [of toLowerCase "''2025-11-10T09:30:00.000Z''"
        "[row_late, row_partial]"
        sample_inputs "''2025-11-10T17:45:12.250Z''" sample_inputs_enh] h
    by blast
qed

end
